theory Spec2Isabelle
  imports Main
begin

section \<open>Python values the launcher handles\<close>

text \<open>
  The launcher (\<^verbatim>\<open>src/launcher.py\<close>) is a Python 3 program. Text is modelled as
  \<^typ>\<open>string\<close>; the characters that matter to the command grammar are ASCII.
  \<^verbatim>\<open>str.strip()\<close> removes the characters for which \<^verbatim>\<open>str.isspace()\<close> holds; below
  code point 256 these are 9 to 13, 28 to 32, 133 and 160. \<^verbatim>\<open>bytes.strip()\<close> removes the
  ASCII whitespace bytes 9 to 13 and 32.
\<close>

definition str_isspace :: "char \<Rightarrow> bool" where
  "str_isspace c =
     (let n = (of_char c :: nat)
      in (9 \<le> n \<and> n \<le> 13) \<or> (28 \<le> n \<and> n \<le> 32) \<or> n = 133 \<or> n = 160)"

definition bytes_isspace :: "char \<Rightarrow> bool" where
  "bytes_isspace c = (let n = (of_char c :: nat) in (9 \<le> n \<and> n \<le> 13) \<or> n = 32)"

definition strip_with :: "(char \<Rightarrow> bool) \<Rightarrow> string \<Rightarrow> string" where
  "strip_with sp s = rev (dropWhile sp (rev (dropWhile sp s)))"

definition str_strip :: "string \<Rightarrow> string" where
  "str_strip = strip_with str_isspace"

definition bytes_strip :: "string \<Rightarrow> string" where
  "bytes_strip = strip_with bytes_isspace"

definition startswith :: "string \<Rightarrow> string \<Rightarrow> bool" where
  "startswith s p = (take (length p) s = p)"

definition endswith :: "string \<Rightarrow> string \<Rightarrow> bool" where
  "endswith s p = (length p \<le> length s \<and> drop (length s - length p) s = p)"

text \<open>
  \<^verbatim>\<open>repr\<close> of a \<^verbatim>\<open>bytes\<close> object, which is what \<^verbatim>\<open>str(b)\<close> returns in Python 3: the
  letter b, a quote (a double quote when the bytes hold a single quote and no double
  quote), the escaped bytes, and the quote again.
\<close>

definition hexdigit :: "nat \<Rightarrow> char" where
  "hexdigit n = ''0123456789abcdef'' ! (n mod 16)"

definition bytes_quote :: "string \<Rightarrow> char" where
  "bytes_quote bs =
     (if CHR 0x27 \<in> set bs \<and> CHR 0x22 \<notin> set bs then CHR 0x22 else CHR 0x27)"

definition escape_byte :: "char \<Rightarrow> char \<Rightarrow> string" where
  "escape_byte quote c =
     (let n = (of_char c :: nat) in
      if c = quote \<or> c = CHR 0x5C then [CHR 0x5C, c]
      else if n = 9 then [CHR 0x5C, CHR ''t'']
      else if n = 10 then [CHR 0x5C, CHR ''n'']
      else if n = 13 then [CHR 0x5C, CHR ''r'']
      else if n < 32 \<or> n \<ge> 127 then [CHR 0x5C, CHR ''x'', hexdigit (n div 16), hexdigit n]
      else [c])"

definition bytes_repr :: "string \<Rightarrow> string" where
  "bytes_repr bs =
     (let quote = bytes_quote bs
      in [CHR ''b'', quote] @ concat (map (escape_byte quote) bs) @ [quote])"

text \<open>
  An item of the command queue is a \<^verbatim>\<open>str\<close> (put by the key bindings of
  \<^verbatim>\<open>MainApp.__init__\<close>) or a \<^verbatim>\<open>bytes\<close> object (put by the TCP handler, whose
  \<^verbatim>\<open>rfile\<close> is a binary stream). \<^verbatim>\<open>py_str\<close> is Python's \<^verbatim>\<open>str(item)\<close>.
\<close>

datatype qitem = QStr string | QBytes string

fun py_str :: "qitem \<Rightarrow> string" where
  "py_str (QStr s) = s"
| "py_str (QBytes bs) = bytes_repr bs"

section \<open>Data model\<close>

text \<open>
  Exceptions are values. The classes the launcher tells apart are
  \<^verbatim>\<open>ModuleNotFoundError\<close> (a subclass of \<^verbatim>\<open>ImportError\<close>), \<^verbatim>\<open>ImportError\<close>, every other
  subclass of \<^verbatim>\<open>Exception\<close>, and the exceptions outside \<^verbatim>\<open>Exception\<close>
  (\<^verbatim>\<open>SystemExit\<close>, \<^verbatim>\<open>KeyboardInterrupt\<close>), which \<^verbatim>\<open>except Exception\<close> lets through
  and a bare \<^verbatim>\<open>except:\<close> catches.
\<close>

datatype exn =
    ModuleNotFoundError
  | ImportError
  | AttributeError
  | OSError
  | OtherException string
  | SystemExit
  | KeyboardInterrupt

fun is_Exception :: "exn \<Rightarrow> bool" where
  "is_Exception SystemExit = False"
| "is_Exception KeyboardInterrupt = False"
| "is_Exception e = True"

datatype pyval = PyNone | PyBool bool | PyInt int | PyStr string | PyOpaque nat

type_synonym attrs = "string \<rightharpoonup> pyval"

text \<open>A module object, named by its \<^verbatim>\<open>__name__\<close>.\<close>

datatype pymodule = PyModule string

text \<open>The lifecycle capability set of a module's \<^verbatim>\<open>Main\<close> class.\<close>

datatype meth = Start | Cancel | Prune | Tick

text \<open>
  An instance of a module's \<^verbatim>\<open>Main\<close> class: its identity (the number of instances
  constructed before it), its class, and its \<^verbatim>\<open>__dict__\<close>.
\<close>

record inst =
  iid :: nat
  cls :: pymodule
  dict :: attrs

text \<open>
  What the launcher does to the world outside itself, in order: constructing an
  instance (\<^verbatim>\<open>Main()\<close> returned and the launcher owns the object) and calling one of
  its methods.
\<close>

datatype event = Construct nat | Call nat meth

text \<open>One constructor per \<^verbatim>\<open>print\<close> statement of the launcher, with the values it formats.\<close>

datatype line =
    P_importing string
  | P_done_importing pymodule
  | P_searching string
  | P_not_found string
  | P_not_imported string exn
  | P_instantiating
  | P_done
  | P_attempt_config string
  | P_file_not_found string string
  | P_setting_variables
  | P_config_loaded
  | P_config_error string exn
  | P_starting
  | P_canceling
  | P_pruning
  | P_prune_exception exn
  | P_error_in_main_loop exn

text \<open>
  The fields of \<^verbatim>\<open>MainApp\<close> that the lifecycle code reads and writes
  (\<^verbatim>\<open>self._module\<close>, \<^verbatim>\<open>self._instance\<close>, \<^verbatim>\<open>self._executing\<close>,
  \<^verbatim>\<open>self._remote_commands\<close>), the interpreter's \<^verbatim>\<open>sys.path\<close>, and the observable
  history: the number of instances constructed so far, the events, and standard output.
\<close>

record app =
  s_module :: "pymodule option"
  s_instance :: "inst option"
  s_executing :: bool
  s_remote_commands :: "qitem list"
  sys_path :: "string list"
  constructed :: nat
  trace :: "event list"
  out :: "line list"

text \<open>
  The collaborators the launcher calls and does not define: the import system, the
  file system, the module's class, \<^verbatim>\<open>exec\<close>, and the command-line options. A method
  and \<^verbatim>\<open>exec\<close> act on the instance's \<^verbatim>\<open>__dict__\<close> and may raise after changing it.
\<close>

record env =
  py_import :: "string list \<Rightarrow> string \<Rightarrow> exn + pymodule"
  modules_exists :: bool
  os_walk_modules :: "(string \<times> string list) list"
  fnmatch_filter :: "string list \<Rightarrow> string \<Rightarrow> string list"
  Main_ctor :: "pymodule \<Rightarrow> exn + attrs"
  instance_method :: "pymodule \<Rightarrow> meth \<Rightarrow> attrs \<Rightarrow> attrs \<times> exn option"
  py_exec :: "string \<Rightarrow> attrs \<Rightarrow> attrs \<times> exn option"
  path_exists :: "string \<Rightarrow> bool"
  path_join :: "string \<Rightarrow> string \<Rightarrow> string"
  open_readlines :: "string \<Rightarrow> exn + string list"
  opts_module :: "string option"
  opts_autolaunch :: bool
  opts_studypath :: string
  opts_timecompensation :: pyval
  oscclient :: pyval

text \<open>
  A call returns normally with the state it leaves, or raises with the state at the
  point of the raise.
\<close>

datatype outcome = Returned app | Raised exn app

fun state_of :: "outcome \<Rightarrow> app" where
  "state_of (Returned a) = a"
| "state_of (Raised e a) = a"

fun has_raised :: "outcome \<Rightarrow> bool" where
  "has_raised (Returned a) = False"
| "has_raised (Raised e a) = True"

fun exn_of :: "outcome \<Rightarrow> exn option" where
  "exn_of (Returned a) = None"
| "exn_of (Raised e a) = Some e"

definition then_do :: "outcome \<Rightarrow> (app \<Rightarrow> outcome) \<Rightarrow> outcome" where
  "then_do r f = (case r of Returned a \<Rightarrow> f a | Raised e a \<Rightarrow> Raised e a)"

definition print :: "line \<Rightarrow> app \<Rightarrow> app" where
  "print l a = a\<lparr>out := out a @ [l]\<rparr>"

text \<open>Lines 297 to 300 of \<^verbatim>\<open>MainApp.__init__\<close>.\<close>

definition init_app :: "string list \<Rightarrow> app" where
  "init_app path =
     \<lparr>s_module = None, s_instance = None, s_executing = False, s_remote_commands = [],
      sys_path = path, constructed = 0, trace = [], out = []\<rparr>"

text \<open>
  The Session State of the specification, read off the fields: no instance is
  \<open>Unloaded\<close>, an instance that is not executing is \<open>Loaded\<close>, an executing one is
  \<open>Running\<close>.
\<close>

datatype session_state = Unloaded | Loaded | Running

definition session :: "app \<Rightarrow> session_state" where
  "session a =
     (case s_instance a of
        None \<Rightarrow> Unloaded
      | Some i \<Rightarrow> if s_executing a then Running else Loaded)"

text \<open>The value of an attribute of the current instance, if there is one.\<close>

definition instance_attr :: "app \<Rightarrow> string \<Rightarrow> pyval option" where
  "instance_attr a k = (case s_instance a of None \<Rightarrow> None | Some i \<Rightarrow> dict i k)"

text \<open>The call a load makes on the instance it replaces, if there is one.\<close>

definition prune_calls :: "app \<Rightarrow> event list" where
  "prune_calls a = (case s_instance a of None \<Rightarrow> [] | Some i \<Rightarrow> [Call (iid i) Prune])"

section \<open>The session controller\<close>

text \<open>
  \<^verbatim>\<open>self._instance.m()\<close>: on \<^verbatim>\<open>None\<close> the attribute lookup raises
  \<^verbatim>\<open>AttributeError\<close>; otherwise the method runs on the instance's \<^verbatim>\<open>__dict__\<close>.
\<close>

definition call_method :: "env \<Rightarrow> meth \<Rightarrow> app \<Rightarrow> outcome" where
  "call_method E m a =
     (case s_instance a of
        None \<Rightarrow> Raised AttributeError a
      | Some i \<Rightarrow>
          (case instance_method E (cls i) m (dict i) of
             (d, r) \<Rightarrow>
               (let a' = a\<lparr>s_instance := Some (i\<lparr>dict := d\<rparr>),
                            trace := trace a @ [Call (iid i) m]\<rparr>
                in case r of None \<Rightarrow> Returned a' | Some e \<Rightarrow> Raised e a')))"

text \<open>
  \<^verbatim>\<open>prune_module\<close> (lines 440 to 448): \<^verbatim>\<open>except Exception\<close> catches and prints what
  \<^verbatim>\<open>prune()\<close> raises; an exception outside \<^verbatim>\<open>Exception\<close> propagates.
\<close>

definition prune_module :: "env \<Rightarrow> app \<Rightarrow> outcome" where
  "prune_module E a =
     (if s_instance a \<noteq> None then
        (case call_method E Prune (print P_pruning a) of
           Returned a1 \<Rightarrow> Returned (print P_done a1)
         | Raised e a1 \<Rightarrow>
             if is_Exception e then Returned (print P_done (print (P_prune_exception e) a1))
             else Raised e a1)
      else Returned a)"

text \<open>\<^verbatim>\<open>cancel_module\<close> (lines 432 to 437).\<close>

definition cancel_module :: "env \<Rightarrow> app \<Rightarrow> outcome" where
  "cancel_module E a =
     then_do
       (if s_instance a \<noteq> None \<and> s_executing a then
          then_do (call_method E Cancel (print P_canceling a)) (\<lambda>a1. Returned (print P_done a1))
        else Returned a)
       (\<lambda>a2. Returned (a2\<lparr>s_executing := False\<rparr>))"

text \<open>\<^verbatim>\<open>start_module\<close> (lines 423 to 429).\<close>

definition start_module :: "env \<Rightarrow> app \<Rightarrow> outcome" where
  "start_module E a =
     (if s_instance a \<noteq> None then
        then_do (cancel_module E a) (\<lambda>a1.
        then_do (call_method E Start (print P_starting a1)) (\<lambda>a2.
        Returned ((print P_done a2)\<lparr>s_executing := True\<rparr>)))
      else Returned a)"

text \<open>
  The search of lines 362 to 377: every directory under \<^verbatim>\<open>modules\<close> that holds
  \<^verbatim>\<open>name.py\<close>, \<^verbatim>\<open>name.pyc\<close> or \<^verbatim>\<open>name\<close> is collected (once per match), and each
  location not yet on \<^verbatim>\<open>sys.path\<close> is inserted at its front.
\<close>

fun collect_locations :: "env \<Rightarrow> string \<Rightarrow> (string \<times> string list) list \<Rightarrow> string list" where
  "collect_locations E name [] = []"
| "collect_locations E name ((root, filenames) # rest) =
     (if length (fnmatch_filter E filenames (name @ ''.py'')) \<ge> 1 then [root] else []) @
     (if length (fnmatch_filter E filenames (name @ ''.pyc'')) \<ge> 1 then [root] else []) @
     (if length (fnmatch_filter E filenames name) \<ge> 1 then [root] else []) @
     collect_locations E name rest"

fun insert_paths :: "string list \<Rightarrow> string list \<Rightarrow> string list" where
  "insert_paths [] path = path"
| "insert_paths (loc # locs) path =
     insert_paths locs (if loc \<notin> set path then loc # path else path)"

text \<open>
  The two import attempts of \<^verbatim>\<open>load_module\<close> (lines 357 to 389). The first attempt
  handles \<^verbatim>\<open>ModuleNotFoundError\<close> only; the second prints and raises again on
  \<^verbatim>\<open>ModuleNotFoundError\<close> and on \<^verbatim>\<open>ImportError\<close>; every other exception propagates as
  it is. \<^verbatim>\<open>self._module\<close> is assigned only when an import returns.
\<close>

definition import_module :: "env \<Rightarrow> string \<Rightarrow> app \<Rightarrow> outcome" where
  "import_module E name a =
     (case py_import E (sys_path a) name of
        Inr m \<Rightarrow> Returned (print (P_done_importing m) (a\<lparr>s_module := Some m\<rparr>))
      | Inl ModuleNotFoundError \<Rightarrow>
          (let a1 =
             (if modules_exists E then
                (print (P_searching name) a)
                  \<lparr>sys_path := insert_paths (collect_locations E name (os_walk_modules E))
                                 (sys_path a)\<rparr>
              else a)
           in case py_import E (sys_path a1) name of
                Inr m \<Rightarrow> Returned (print (P_done_importing m) (a1\<lparr>s_module := Some m\<rparr>))
              | Inl ModuleNotFoundError \<Rightarrow>
                  Raised ModuleNotFoundError (print (P_not_found name) a1)
              | Inl ImportError \<Rightarrow> Raised ImportError (print (P_not_imported name ImportError) a1)
              | Inl e \<Rightarrow> Raised e a1)
      | Inl e \<Rightarrow> Raised e a)"

text \<open>The two attributes the launcher sets on a new instance (lines 393 and 394).\<close>

definition launcher_attrs :: "env \<Rightarrow> attrs \<Rightarrow> attrs" where
  "launcher_attrs E d =
     d(''_make_up_for_lost_time'' \<mapsto> opts_timecompensation E, ''_oscclient'' \<mapsto> oscclient E)"

text \<open>
  Lines 391 to 395: \<^verbatim>\<open>self._module.Main()\<close>, then the two attributes the launcher
  sets on the new instance. \<^verbatim>\<open>load_module\<close> reaches this only after an import has
  assigned \<^verbatim>\<open>self._module\<close>.
\<close>

definition instantiate :: "env \<Rightarrow> app \<Rightarrow> outcome" where
  "instantiate E a =
     (let a1 = print P_instantiating a in
      case s_module a1 of
        None \<Rightarrow> Raised AttributeError a1
      | Some m \<Rightarrow>
          (case Main_ctor E m of
             Inl e \<Rightarrow> Raised e a1
           | Inr d \<Rightarrow>
               Returned (print P_done
                 (a1\<lparr>s_instance :=
                        Some \<lparr>iid = constructed a1, cls = m,
                              dict = launcher_attrs E d\<rparr>,
                      constructed := Suc (constructed a1),
                      trace := trace a1 @ [Construct (constructed a1)]\<rparr>))))"

text \<open>
  \<^verbatim>\<open>load_module\<close> (lines 345 to 395). Every caller passes a \<^verbatim>\<open>str\<close>, so the test
  \<^verbatim>\<open>name is not None\<close> holds. \<^verbatim>\<open>set_defaults\<close> touches the window of the engine only
  and is left out.
\<close>

definition load_module :: "env \<Rightarrow> string \<Rightarrow> app \<Rightarrow> outcome" where
  "load_module E name a =
     (if length name > 0 then
        then_do
          (let a1 = print (P_importing name) a
           in if s_instance a1 \<noteq> None then prune_module E a1 else Returned a1)
          (\<lambda>a2. then_do (import_module E name a2) (instantiate E))
      else Returned a)"

text \<open>
  \<^verbatim>\<open>exec(line, self._instance.__dict__)\<close>: on \<^verbatim>\<open>None\<close> the attribute lookup raises
  \<^verbatim>\<open>AttributeError\<close>.
\<close>

definition exec_on_instance :: "env \<Rightarrow> string \<Rightarrow> app \<Rightarrow> outcome" where
  "exec_on_instance E src a =
     (case s_instance a of
        None \<Rightarrow> Raised AttributeError a
      | Some i \<Rightarrow>
          (case py_exec E src (dict i) of
             (d, r) \<Rightarrow>
               (let a' = a\<lparr>s_instance := Some (i\<lparr>dict := d\<rparr>)\<rparr>
                in case r of None \<Rightarrow> Returned a' | Some e \<Rightarrow> Raised e a')))"

text \<open>The loop of lines 414 and 415; the first exception ends it.\<close>

fun exec_lines :: "env \<Rightarrow> string list \<Rightarrow> app \<Rightarrow> outcome" where
  "exec_lines E [] a = Returned a"
| "exec_lines E (l # ls) a = then_do (exec_on_instance E l a) (exec_lines E ls)"

text \<open>
  \<^verbatim>\<open>load_config\<close> (lines 397 to 420). \<^verbatim>\<open>open_readlines\<close> gives the lines of the file
  with their line ends, or what \<^verbatim>\<open>open\<close> raises. The handler of line 417 catches the
  subclasses of \<^verbatim>\<open>Exception\<close>.
\<close>

definition load_config_body :: "env \<Rightarrow> string \<Rightarrow> app \<Rightarrow> outcome" where
  "load_config_body E file a =
     (case open_readlines E file of
        Inl e \<Rightarrow> Raised e a
      | Inr ls \<Rightarrow>
          then_do (load_module E (str_strip (case ls of [] \<Rightarrow> [] | l # _ \<Rightarrow> l)) a) (\<lambda>a1.
          then_do (exec_lines E (tl ls) (print P_setting_variables a1)) (\<lambda>a2.
          Returned (print P_config_loaded a2))))"

definition load_config :: "env \<Rightarrow> string \<Rightarrow> app \<Rightarrow> outcome" where
  "load_config E name a =
     (let a1 = print (P_attempt_config name) a in
      case
        (if path_exists E name then load_config_body E name a1
         else if path_exists E (path_join E (opts_studypath E) name)
           then load_config_body E (path_join E (opts_studypath E) name) a1
         else Returned (print (P_file_not_found name (opts_studypath E)) a1))
      of
        Returned a2 \<Rightarrow> Returned a2
      | Raised e a2 \<Rightarrow>
          if is_Exception e then Returned (print (P_config_error name e) a2)
          else Raised e a2)"

section \<open>The frame loop\<close>

text \<open>
  The \<^verbatim>\<open>if\<close>/\<^verbatim>\<open>elif\<close> chain of \<^verbatim>\<open>_main_loop_tick\<close> (lines 502 to 519) on the stripped
  text of one queue item. The bare \<^verbatim>\<open>except:\<close> around the \<^verbatim>\<open>exec\<close> of \<^verbatim>\<open>setup\<close>
  catches every exception.
\<close>

definition dispatch :: "env \<Rightarrow> string \<Rightarrow> app \<Rightarrow> outcome" where
  "dispatch E cmd a =
     (if cmd = ''start'' then start_module E a
      else if cmd = ''cancel'' \<or> cmd = ''stop'' then cancel_module E a
      else if cmd = ''prune'' then prune_module E a
      else if startswith cmd ''load '' then load_module E (drop 5 cmd) a
      else if startswith cmd ''setup '' then
        Returned (state_of (exec_on_instance E (drop 6 cmd) a))
      else if startswith cmd ''config '' then
        (if \<not> endswith cmd ''.cfg'' then load_config E (drop 7 cmd @ ''.cfg'') a
         else load_config E (drop 7 cmd) a)
      else Returned a)"

text \<open>The name a config command passes to \<^verbatim>\<open>load_config\<close> (lines 516 to 519).\<close>

definition config_name :: "string \<Rightarrow> string" where
  "config_name cmd = (if \<not> endswith cmd ''.cfg'' then drop 7 cmd @ ''.cfg'' else drop 7 cmd)"

text \<open>The file \<^verbatim>\<open>load_config\<close> opens (lines 401 to 407), if any.\<close>

definition config_file :: "env \<Rightarrow> string \<Rightarrow> string option" where
  "config_file E name =
     (if path_exists E name then Some name
      else if path_exists E (path_join E (opts_studypath E) name)
        then Some (path_join E (opts_studypath E) name)
      else None)"

text \<open>
  \<^verbatim>\<open>Queue.put\<close>: the queue is unbounded, so a producer never blocks and the item goes
  to the back.
\<close>

definition put :: "qitem \<Rightarrow> app \<Rightarrow> app" where
  "put x a = a\<lparr>s_remote_commands := s_remote_commands a @ [x]\<rparr>"

definition put_all :: "qitem list \<Rightarrow> app \<Rightarrow> app" where
  "put_all xs a = fold put xs a"

fun map_outcome :: "(app \<Rightarrow> app) \<Rightarrow> outcome \<Rightarrow> outcome" where
  "map_outcome f (Returned a) = Returned (f a)"
| "map_outcome f (Raised e a) = Raised e (f a)"

definition set_queue :: "qitem list \<Rightarrow> app \<Rightarrow> app" where
  "set_queue q a = a\<lparr>s_remote_commands := q\<rparr>"

section \<open>The queue is a frame of every lifecycle operation\<close>

text \<open>
  No operation of the session controller reads or writes \<^verbatim>\<open>self._remote_commands\<close>:
  running it with another queue gives the same outcome with that queue.
\<close>

lemma set_queue_fields [simp]:
  "s_module (set_queue q a) = s_module a"
  "s_instance (set_queue q a) = s_instance a"
  "s_executing (set_queue q a) = s_executing a"
  "s_remote_commands (set_queue q a) = q"
  "sys_path (set_queue q a) = sys_path a"
  "constructed (set_queue q a) = constructed a"
  "trace (set_queue q a) = trace a"
  "out (set_queue q a) = out a"
  by (simp_all add: set_queue_def)

lemma print_fields [simp]:
  "s_module (print l a) = s_module a"
  "s_instance (print l a) = s_instance a"
  "s_executing (print l a) = s_executing a"
  "s_remote_commands (print l a) = s_remote_commands a"
  "sys_path (print l a) = sys_path a"
  "constructed (print l a) = constructed a"
  "trace (print l a) = trace a"
  "out (print l a) = out a @ [l]"
  by (simp_all add: print_def)

lemma then_do_Returned [simp]: "then_do (Returned a) f = f a"
  by (simp add: then_do_def)

lemma then_do_Raised [simp]: "then_do (Raised e a) f = Raised e a"
  by (simp add: then_do_def)

lemma case_map_outcome:
  "(case map_outcome f r of Returned a \<Rightarrow> g a | Raised e a \<Rightarrow> h e a) =
   (case r of Returned a \<Rightarrow> g (f a) | Raised e a \<Rightarrow> h e (f a))"
  by (cases r) simp_all

lemma map_outcome_case:
  "map_outcome f (case r of Returned a \<Rightarrow> g a | Raised e a \<Rightarrow> h e a) =
   (case r of Returned a \<Rightarrow> map_outcome f (g a) | Raised e a \<Rightarrow> map_outcome f (h e a))"
  by (cases r) simp_all

lemma map_outcome_if:
  "map_outcome f (if c then x else y) = (if c then map_outcome f x else map_outcome f y)"
  by simp

lemmas frame_simps = then_do_def case_map_outcome map_outcome_case map_outcome_if

lemma print_queue: "print l (set_queue q a) = set_queue q (print l a)"
  by (simp add: print_def set_queue_def)

lemma call_method_queue:
  "call_method E m (set_queue q a) = map_outcome (set_queue q) (call_method E m a)"
  by (simp add: call_method_def set_queue_def Let_def split: option.splits prod.splits)

lemma prune_module_queue:
  "prune_module E (set_queue q a) = map_outcome (set_queue q) (prune_module E a)"
  by (cases "call_method E Prune (print P_pruning a)")
     (simp_all add: prune_module_def print_queue call_method_queue)

lemma set_queue_executing:
  "(set_queue q a)\<lparr>s_executing := b\<rparr> = set_queue q (a\<lparr>s_executing := b\<rparr>)"
  by (simp add: set_queue_def)

lemma cancel_module_queue:
  "cancel_module E (set_queue q a) = map_outcome (set_queue q) (cancel_module E a)"
  by (simp add: cancel_module_def frame_simps print_queue call_method_queue set_queue_executing
      cong: outcome.case_cong if_cong split: outcome.splits)

lemma start_module_queue:
  "start_module E (set_queue q a) = map_outcome (set_queue q) (start_module E a)"
  by (simp add: start_module_def frame_simps print_queue call_method_queue cancel_module_queue
      set_queue_executing cong: outcome.case_cong if_cong split: outcome.splits)

lemma import_module_queue:
  "import_module E name (set_queue q a) = map_outcome (set_queue q) (import_module E name a)"
  by (simp add: import_module_def Let_def print_def set_queue_def split: sum.splits exn.splits)

lemma instantiate_queue:
  "instantiate E (set_queue q a) = map_outcome (set_queue q) (instantiate E a)"
  by (simp add: instantiate_def Let_def print_def set_queue_def split: sum.splits option.splits)

lemma load_module_queue:
  "load_module E name (set_queue q a) = map_outcome (set_queue q) (load_module E name a)"
  by (simp add: load_module_def Let_def frame_simps print_queue prune_module_queue
      import_module_queue instantiate_queue cong: outcome.case_cong if_cong split: outcome.splits)

lemma exec_on_instance_queue:
  "exec_on_instance E src (set_queue q a) = map_outcome (set_queue q) (exec_on_instance E src a)"
  by (simp add: exec_on_instance_def set_queue_def Let_def split: option.splits prod.splits)

lemma exec_lines_queue:
  "exec_lines E ls (set_queue q a) = map_outcome (set_queue q) (exec_lines E ls a)"
  by (induction ls arbitrary: a)
     (simp_all add: frame_simps exec_on_instance_queue cong: outcome.case_cong if_cong split: outcome.splits)

lemma load_config_body_queue:
  "load_config_body E file (set_queue q a) = map_outcome (set_queue q) (load_config_body E file a)"
  by (simp add: load_config_body_def frame_simps print_queue load_module_queue exec_lines_queue
      cong: outcome.case_cong if_cong split: sum.splits outcome.splits)

lemma load_config_queue:
  "load_config E name (set_queue q a) = map_outcome (set_queue q) (load_config E name a)"
  by (simp add: load_config_def Let_def frame_simps print_queue load_config_body_queue
      cong: outcome.case_cong if_cong split: outcome.splits)

lemma state_of_map_outcome: "state_of (map_outcome f r) = f (state_of r)"
  by (cases r) simp_all

lemma dispatch_queue:
  "dispatch E cmd (set_queue q a) = map_outcome (set_queue q) (dispatch E cmd a)"
  by (simp add: dispatch_def start_module_queue cancel_module_queue prune_module_queue
      load_module_queue load_config_queue exec_on_instance_queue state_of_map_outcome)

lemma dispatch_keeps_queue:
  "s_remote_commands (state_of (dispatch E cmd a)) = s_remote_commands a"
proof -
  have "set_queue (s_remote_commands a) a = a"
    by (simp add: set_queue_def)
  with dispatch_queue [of E cmd "s_remote_commands a" a]
  have "dispatch E cmd a = map_outcome (set_queue (s_remote_commands a)) (dispatch E cmd a)"
    by metis
  then have "state_of (dispatch E cmd a) = set_queue (s_remote_commands a) (state_of (dispatch E cmd a))"
    by (metis state_of_map_outcome)
  then show ?thesis
    by (metis set_queue_fields(4))
qed

text \<open>
  The drain loop of \<^verbatim>\<open>_main_loop_tick\<close> (lines 499 to 521): \<^verbatim>\<open>get_nowait\<close> takes the
  item at the front until it raises \<^verbatim>\<open>queue.Empty\<close>, which ends the loop. Producer
  threads may put items at any moment; \<open>arrivals\<close> is the schedule of one drain, its
  \<open>k\<close>-th element the items put between the \<open>k\<close>-th \<^verbatim>\<open>get_nowait\<close> of the drain and
  the next one, that is while the \<open>k\<close>-th command is applied. What the schedule still
  holds when the queue is found empty is put after the loop has ended. An exception of
  a command leaves the loop and the tick.
\<close>

definition arrived :: "qitem list list \<Rightarrow> qitem list" where
  "arrived arrivals = (case arrivals of [] \<Rightarrow> [] | new # later \<Rightarrow> new)"

function drain :: "env \<Rightarrow> qitem list list \<Rightarrow> app \<Rightarrow> outcome" where
  "drain E arrivals a =
     (case s_remote_commands a of
        [] \<Rightarrow> Returned (put_all (concat arrivals) a)
      | item # rest \<Rightarrow>
          (case dispatch E (str_strip (py_str item)) (a\<lparr>s_remote_commands := rest\<rparr>) of
             Raised e a1 \<Rightarrow> Raised e (put_all (arrived arrivals) a1)
           | Returned a1 \<Rightarrow> drain E (tl arrivals) (put_all (arrived arrivals) a1)))"
  by pat_completeness auto

lemma put_all_queue [simp]:
  "s_remote_commands (put_all xs a) = s_remote_commands a @ xs"
  unfolding put_all_def by (induction xs arbitrary: a) (simp_all add: put_def)

lemma length_concat_arrivals:
  "length (arrived arrivals) + length (concat (tl arrivals)) = length (concat arrivals)"
  by (cases arrivals) (simp_all add: arrived_def)

termination drain
proof (relation "measure (\<lambda>(E, arrivals, a). length (s_remote_commands a) + length (concat arrivals))")
  show "wf (measure (\<lambda>(E, arrivals, a). length (s_remote_commands a) + length (concat arrivals)))"
    by simp
next
  fix E :: env and arrivals :: "qitem list list" and a :: app and item rest a1
  assume q: "s_remote_commands a = item # rest"
    and d: "dispatch E (str_strip (py_str item)) (a\<lparr>s_remote_commands := rest\<rparr>) = Returned a1"
  have "s_remote_commands a1 = rest"
    using dispatch_keeps_queue [of E "str_strip (py_str item)" "a\<lparr>s_remote_commands := rest\<rparr>"] d
    by simp
  then show "((E, tl arrivals, put_all (arrived arrivals) a1), (E, arrivals, a))
      \<in> measure (\<lambda>(E, arrivals, a). length (s_remote_commands a) + length (concat arrivals))"
    using q length_concat_arrivals [of arrivals] by simp
qed

declare drain.simps [simp del]

text \<open>
  \<^verbatim>\<open>_main_loop_tick\<close> (lines 494 to 529): the drain, then one \<^verbatim>\<open>tick()\<close> of the
  instance when there is one and it is executing. The engine lock released at line 496
  and taken again at line 527 guards the engine, not the session, and is left out.
\<close>

definition main_loop_tick :: "env \<Rightarrow> qitem list list \<Rightarrow> app \<Rightarrow> outcome" where
  "main_loop_tick E arrivals a =
     then_do (drain E arrivals a) (\<lambda>a1.
       if s_instance a1 \<noteq> None \<and> s_executing a1 then call_method E Tick a1
       else Returned a1)"

text \<open>
  \<^verbatim>\<open>ThreadedTCPRequestHandler.handle\<close> (lines 456 to 466), one per connection. The
  argument is what the successive \<^verbatim>\<open>rfile.readline()\<close> calls return, each with its line
  end; past the end of the stream \<^verbatim>\<open>readline\<close> returns the empty bytes object, and
  a read that raises ends the loop as well. A line that is empty once stripped ends
  the loop.
\<close>

fun handle :: "string list \<Rightarrow> app \<Rightarrow> app" where
  "handle [] a = a"
| "handle (l # ls) a =
     (let data = bytes_strip l
      in if length data = 0 then a else handle ls (put (QBytes data) a))"

text \<open>
  The top-level loop (lines 546 to 554) steps the task manager once per frame, and
  the task manager runs \<^verbatim>\<open>_main_loop_tick\<close> and passes on what it raises (the
  specification's fatal propagation to the top-level host loop). Such an exception
  leaves the loop, is printed when it is an \<^verbatim>\<open>Exception\<close>, and the launcher
  terminates. A frame is the items put since the previous frame and the schedule of
  arrivals during its drain.
\<close>

fun main_loop :: "env \<Rightarrow> (qitem list \<times> qitem list list) list \<Rightarrow> app \<Rightarrow> outcome" where
  "main_loop E [] a = Returned a"
| "main_loop E ((queued, during) # frames) a =
     (case main_loop_tick E during (put_all queued a) of
        Returned a1 \<Rightarrow> main_loop E frames a1
      | Raised e a1 \<Rightarrow>
          Raised e (if is_Exception e then print (P_error_in_main_loop e) a1 else a1))"

text \<open>
  The rest of \<^verbatim>\<open>MainApp.__init__\<close> (lines 321 to 330): the initial module or study
  config, then the automatic start. \<^verbatim>\<open>opts_autolaunch\<close> is the truth value of
  \<^verbatim>\<open>opts.autolaunch or (opts.autolaunch == '1')\<close>. The whole program (lines 540 to
  554) constructs the application and enters the loop inside one \<^verbatim>\<open>try\<close>.
\<close>

definition MainApp_init :: "env \<Rightarrow> string list \<Rightarrow> outcome" where
  "MainApp_init E path =
     then_do
       (case opts_module E of
          None \<Rightarrow> Returned (init_app path)
        | Some name \<Rightarrow>
            if endswith name ''.cfg'' then load_config E name (init_app path)
            else load_module E name (init_app path))
       (\<lambda>a. if opts_autolaunch E then start_module E a else Returned a)"

definition launcher :: "env \<Rightarrow> string list \<Rightarrow> (qitem list \<times> qitem list list) list \<Rightarrow> outcome" where
  "launcher E path frames =
     (case MainApp_init E path of
        Returned a \<Rightarrow> main_loop E frames a
      | Raised e a \<Rightarrow> Raised e (if is_Exception e then print (P_error_in_main_loop e) a else a))"

section \<open>Basic facts about the operations\<close>

text \<open>
  What a command text dispatches to, and what each step of a load leaves of the
  session, whether it returns or raises.
\<close>

lemma put_all_eq: "put_all xs a = set_queue (s_remote_commands a @ xs) a"
  unfolding put_all_def
proof (induction xs arbitrary: a)
  case Nil
  show ?case by (simp add: set_queue_def)
next
  case (Cons x xs)
  show ?case by (simp add: Cons.IH) (simp add: put_def set_queue_def)
qed

lemma startswith_split: "startswith s p \<Longrightarrow> s = p @ drop (length p) s"
  by (metis append_take_drop_id startswith_def)

lemma dispatch_load:
  assumes "startswith cmd ''load ''"
  shows "dispatch E cmd a = load_module E (drop 5 cmd) a"
proof -
  obtain r where "cmd = ''load '' @ r"
    using startswith_split [OF assms] ..
  then show ?thesis
    by (simp add: dispatch_def startswith_def)
qed

lemma dispatch_config:
  assumes "startswith cmd ''config ''"
  shows "dispatch E cmd a = load_config E (config_name cmd) a"
proof -
  obtain r where "cmd = ''config '' @ r"
    using startswith_split [OF assms] ..
  then show ?thesis
    by (simp add: dispatch_def startswith_def config_name_def)
qed

lemma dispatch_setup:
  assumes "startswith cmd ''setup ''"
  shows "dispatch E cmd a = Returned (state_of (exec_on_instance E (drop 6 cmd) a))"
proof -
  obtain r where "cmd = ''setup '' @ r"
    using startswith_split [OF assms] ..
  then show ?thesis
    by (simp add: dispatch_def startswith_def)
qed

lemma prune_module_session:
  "s_module (state_of (prune_module E a)) = s_module a"
  "s_executing (state_of (prune_module E a)) = s_executing a"
  "map_option iid (s_instance (state_of (prune_module E a))) = map_option iid (s_instance a)"
  "trace (state_of (prune_module E a)) = trace a @ prune_calls a"
  by (auto simp add: prune_module_def call_method_def prune_calls_def Let_def
      split: option.splits prod.splits)

lemma import_module_session:
  "s_instance (state_of (import_module E name a)) = s_instance a"
  "s_executing (state_of (import_module E name a)) = s_executing a"
  "trace (state_of (import_module E name a)) = trace a"
  by (auto simp add: import_module_def Let_def split: sum.splits exn.splits)

lemma exec_on_instance_session:
  "s_module (state_of (exec_on_instance E src a)) = s_module a"
  "s_executing (state_of (exec_on_instance E src a)) = s_executing a"
  "map_option iid (s_instance (state_of (exec_on_instance E src a))) = map_option iid (s_instance a)"
  "map_option cls (s_instance (state_of (exec_on_instance E src a))) = map_option cls (s_instance a)"
  "trace (state_of (exec_on_instance E src a)) = trace a"
  "s_remote_commands (state_of (exec_on_instance E src a)) = s_remote_commands a"
  by (auto simp add: exec_on_instance_def Let_def split: option.splits prod.splits)

lemma prune_module_constructed:
  "constructed (state_of (prune_module E a)) = constructed a"
  by (auto simp add: prune_module_def call_method_def Let_def split: option.splits prod.splits)

lemma import_module_constructed:
  "constructed (state_of (import_module E name a)) = constructed a"
  by (auto simp add: import_module_def Let_def split: sum.splits exn.splits)

lemma Raised_exn_of: "exn_of r = Some e \<Longrightarrow> r = Raised e (state_of r)"
  by (cases r) simp_all

lemma drain_Nil:
  "s_remote_commands a = [] \<Longrightarrow> drain E arrivals a = Returned (put_all (concat arrivals) a)"
  by (subst drain.simps) simp

lemma drain_Cons:
  "s_remote_commands a = item # rest \<Longrightarrow>
   drain E arrivals a =
     (case dispatch E (str_strip (py_str item)) (a\<lparr>s_remote_commands := rest\<rparr>) of
        Raised e a1 \<Rightarrow> Raised e (put_all (arrived arrivals) a1)
      | Returned a1 \<Rightarrow> drain E (tl arrivals) (put_all (arrived arrivals) a1))"
  by (subst drain.simps) simp

section \<open>A concrete environment\<close>

text \<open>
  One module \<^verbatim>\<open>demo\<close> whose methods do nothing, one module \<^verbatim>\<open>broken\<close> whose
  \<^verbatim>\<open>Main()\<close> raises, two study configs in the working directory, and an \<^verbatim>\<open>exec\<close> that
  knows the statement \<^verbatim>\<open>x=5\<close> and the empty statement.
\<close>

definition demo_exec :: "string \<Rightarrow> attrs \<Rightarrow> attrs \<times> exn option" where
  "demo_exec src d =
     (if str_strip src = ''x=5'' then (d(''x'' \<mapsto> PyInt 5), None)
      else if str_strip src = [] then (d, None)
      else (d, Some (OtherException ''unsupported statement'')))"

definition demo_env :: env where
  "demo_env =
     \<lparr>py_import = (\<lambda>path name.
        if name = ''demo'' \<or> name = ''broken'' then Inr (PyModule name)
        else Inl ModuleNotFoundError),
      modules_exists = False,
      os_walk_modules = [],
      fnmatch_filter = (\<lambda>names pat. filter (\<lambda>n. n = pat) names),
      Main_ctor = (\<lambda>m. if m = PyModule ''broken'' then Inl (OtherException ''Main'')
                         else Inr Map.empty),
      instance_method = (\<lambda>m f d. (d, None)),
      py_exec = demo_exec,
      path_exists = (\<lambda>p. p = ''study.cfg'' \<or> p = ''blank.cfg''),
      path_join = (\<lambda>dir name. dir @ ''/'' @ name),
      open_readlines = (\<lambda>p.
        if p = ''study.cfg'' then Inr [''demo'' @ [CHR 0x0A], ''x=5'' @ [CHR 0x0A]]
        else if p = ''blank.cfg'' then Inr [[CHR 0x0A], ''x=5'' @ [CHR 0x0A]]
        else Inl OSError),
      opts_module = None,
      opts_autolaunch = False,
      opts_studypath = ''studies/SampleStudy'',
      opts_timecompensation = PyBool True,
      oscclient = PyNone\<rparr>"

definition demo_inst :: inst where
  "demo_inst =
     \<lparr>iid = 0, cls = PyModule ''demo'',
      dict = [''_make_up_for_lost_time'' \<mapsto> PyBool True, ''_oscclient'' \<mapsto> PyNone]\<rparr>"

definition running_demo :: app where
  "running_demo =
     state_of (main_loop demo_env [([QStr ''load demo'', QStr ''start''], [])] (init_app []))"

lemmas run_simps =
  main_loop_tick_def drain.simps put_all_def put_def dispatch_def start_module_def
  cancel_module_def prune_module_def load_module_def import_module_def instantiate_def
  call_method_def load_config_def load_config_body_def exec_on_instance_def
  print_def init_app_def session_def startswith_def endswith_def arrived_def launcher_attrs_def
  str_strip_def strip_with_def str_isspace_def Let_def

lemma running_demo_instance: "s_instance running_demo = Some demo_inst"
  by (simp add: running_demo_def demo_env_def demo_inst_def run_simps)

lemma running_demo_facts:
  "trace running_demo = [Construct 0, Call 0 Start, Call 0 Tick]"
  "s_executing running_demo" "s_module running_demo = Some (PyModule ''demo'')"
  "s_remote_commands running_demo = []"
  by code_simp+

section \<open>Prune\<close>

text \<open>
  Claim C1, as amended. \<^verbatim>\<open>prune_module\<close> never assigns \<^verbatim>\<open>self._instance\<close> or
  \<^verbatim>\<open>self._executing\<close>. Applying \<^verbatim>\<open>prune\<close> when an instance exists calls its
  \<^verbatim>\<open>prune()\<close> exactly once and nothing else of it; the launcher keeps the instance
  (only \<^verbatim>\<open>prune()\<close> itself may have changed its \<^verbatim>\<open>__dict__\<close>), the module and the
  executing flag, so the session state is what it was. The call raises out of the
  command only when \<^verbatim>\<open>prune()\<close> raised something that is not an \<^verbatim>\<open>Exception\<close>.
\<close>

theorem prune_keeps_instance:
  assumes "s_instance a = Some i"
  shows "trace (state_of (dispatch E ''prune'' a)) = trace a @ [Call (iid i) Prune]
    \<and> s_instance (state_of (dispatch E ''prune'' a))
        = Some (i\<lparr>dict := fst (instance_method E (cls i) Prune (dict i))\<rparr>)
    \<and> s_module (state_of (dispatch E ''prune'' a)) = s_module a
    \<and> s_executing (state_of (dispatch E ''prune'' a)) = s_executing a
    \<and> session (state_of (dispatch E ''prune'' a)) = session a
    \<and> has_raised (dispatch E ''prune'' a)
        = (case snd (instance_method E (cls i) Prune (dict i)) of
             None \<Rightarrow> False | Some e \<Rightarrow> \<not> is_Exception e)"
proof -
  obtain d r where m: "instance_method E (cls i) Prune (dict i) = (d, r)"
    by (cases "instance_method E (cls i) Prune (dict i)")
  have d: "dispatch E ''prune'' a = prune_module E a"
    by (simp add: dispatch_def)
  show ?thesis
  proof (cases r)
    case None
    with assms m show ?thesis
      unfolding d by (simp add: prune_module_def call_method_def print_def session_def)
  next
    case (Some e)
    with assms m show ?thesis
      unfolding d by (simp add: prune_module_def call_method_def print_def session_def)
  qed
qed

text \<open>Witness of C1: \<^verbatim>\<open>prune\<close> applied to the running demo session.\<close>

theorem prune_keeps_instance_witness:
  "s_instance running_demo = Some demo_inst
   \<and> trace (state_of (dispatch demo_env ''prune'' running_demo))
       = [Construct 0, Call 0 Start, Call 0 Tick, Call 0 Prune]
   \<and> session (state_of (dispatch demo_env ''prune'' running_demo)) = Running"
  using prune_keeps_instance [OF running_demo_instance, of demo_env]
  by (simp add: running_demo_instance running_demo_facts demo_inst_def session_def)

definition pruned_demo :: app where
  "pruned_demo =
     state_of (main_loop demo_env
       [([QStr ''load demo'', QStr ''start'', QStr ''prune''], [])] (init_app []))"

text \<open>
  Counterexample to C1 as stated: after \<^verbatim>\<open>load demo\<close>, \<^verbatim>\<open>start\<close>, \<^verbatim>\<open>prune\<close> in one
  frame the session is still \<open>Running\<close>, the instance is still owned, and the
  \<^verbatim>\<open>tick()\<close> of the same frame reaches the pruned instance.
\<close>

theorem prune_releases_instance_counterexample:
  "session pruned_demo = Running
   \<and> map_option iid (s_instance pruned_demo) = Some 0
   \<and> trace pruned_demo = [Construct 0, Call 0 Start, Call 0 Prune, Call 0 Tick]"
  by code_simp

section \<open>The remote-control protocol\<close>

text \<open>
  The handler puts \<^verbatim>\<open>bytes\<close> objects; \<^verbatim>\<open>str\<close> of one is its \<^verbatim>\<open>repr\<close>, which starts
  with the letter b and a quote and ends with the quote, so stripping leaves it as it
  is and no branch of the verb chain matches it.
\<close>

lemma str_strip_bytes_repr: "str_strip (bytes_repr bs) = bytes_repr bs"
proof -
  have q: "\<not> str_isspace (bytes_quote bs)"
    by (simp add: bytes_quote_def str_isspace_def)
  have b: "\<not> str_isspace CHR ''b''"
    by (simp add: str_isspace_def)
  show ?thesis
    using q b by (simp add: str_strip_def strip_with_def bytes_repr_def Let_def)
qed

lemma dispatch_bytes: "dispatch E (str_strip (py_str (QBytes bs))) a = Returned a"
  by (simp add: str_strip_bytes_repr) (simp add: bytes_repr_def dispatch_def startswith_def Let_def)

text \<open>
  A client sends the lines \<^verbatim>\<open>load demo\<close> and \<^verbatim>\<open>start\<close> to a launcher that has
  just started.
\<close>

definition remote_demo :: app where
  "remote_demo = handle [''load demo'' @ [CHR 0x0A], ''start'' @ [CHR 0x0A]] (init_app [])"

text \<open>
  Claim C2 fails on the code. Whatever line a client sends, the item the tick takes
  from the queue is a \<^verbatim>\<open>bytes\<close> object and its command text matches no verb: the
  command changes nothing. For the lines \<^verbatim>\<open>load demo\<close> and \<^verbatim>\<open>start\<close> the command
  texts are \<^verbatim>\<open>b'load demo'\<close> and \<^verbatim>\<open>b'start'\<close>; after the tick the session is
  \<open>Unloaded\<close>, no module was constructed or called, and both items are consumed.
\<close>

theorem remote_lines_are_inert:
  "dispatch E (str_strip (py_str (QBytes bs))) a = Returned a
   \<and> map py_str (s_remote_commands remote_demo)
       = [''b'' @ [CHR 0x27] @ ''load demo'' @ [CHR 0x27],
          ''b'' @ [CHR 0x27] @ ''start'' @ [CHR 0x27]]
   \<and> session (state_of (main_loop_tick demo_env [] remote_demo)) = Unloaded
   \<and> trace (state_of (main_loop_tick demo_env [] remote_demo)) = []
   \<and> s_remote_commands (state_of (main_loop_tick demo_env [] remote_demo)) = []"
proof -
  have "dispatch E (str_strip (py_str (QBytes bs))) a = Returned a"
    by (rule dispatch_bytes)
  moreover have "map py_str (s_remote_commands remote_demo)
       = [''b'' @ [CHR 0x27] @ ''load demo'' @ [CHR 0x27],
          ''b'' @ [CHR 0x27] @ ''start'' @ [CHR 0x27]]"
    by code_simp
  moreover have "session (state_of (main_loop_tick demo_env [] remote_demo)) = Unloaded"
    by code_simp
  moreover have "trace (state_of (main_loop_tick demo_env [] remote_demo)) = []"
    by code_simp
  moreover have "s_remote_commands (state_of (main_loop_tick demo_env [] remote_demo)) = []"
    by code_simp
  ultimately show ?thesis by blast
qed

text \<open>
  The same commands as \<^verbatim>\<open>str\<close> items, the type the key bindings of
  \<^verbatim>\<open>MainApp.__init__\<close> put, do what the protocol documents: \<^verbatim>\<open>load demo\<close> and
  \<^verbatim>\<open>start\<close> give \<open>Running\<close> with one \<^verbatim>\<open>start()\<close>, and \<^verbatim>\<open>cancel\<close> then gives
  \<open>Loaded\<close> with one \<^verbatim>\<open>cancel()\<close>.
\<close>

definition scenario_A1 :: app where
  "scenario_A1 = state_of (main_loop_tick demo_env []
     (put_all [QStr ''load demo'', QStr ''start''] (init_app [])))"

definition scenario_A2 :: app where
  "scenario_A2 = state_of (main_loop_tick demo_env [] (put (QStr ''cancel'') scenario_A1))"

lemma scenario_A_str_items:
  "session scenario_A1 = Running"
  "trace scenario_A1 = [Construct 0, Call 0 Start, Call 0 Tick]"
  "session scenario_A2 = Loaded"
  "trace scenario_A2 = [Construct 0, Call 0 Start, Call 0 Tick, Call 0 Cancel]"
  by code_simp+

section \<open>Load failures\<close>

lemma import_module_Raised:
  "import_module E name a = Raised e a' \<Longrightarrow> s_module a' = s_module a"
  by (auto simp add: import_module_def Let_def split: sum.splits exn.splits if_splits)

lemma instantiate_Raised:
  assumes "instantiate E a = Raised e a'"
  shows "s_module a' = s_module a" "s_instance a' = s_instance a"
    "s_executing a' = s_executing a" "trace a' = trace a"
    "case s_module a of None \<Rightarrow> e = AttributeError | Some m \<Rightarrow> Main_ctor E m = Inl e"
  using assms
  by (auto simp add: instantiate_def Let_def split: sum.splits option.splits)

lemma load_module_Raised:
  assumes "load_module E name a = Raised e a'"
  shows "s_executing a' = s_executing a"
    and "map_option iid (s_instance a') = map_option iid (s_instance a)"
    and "trace a' = trace a @ prune_calls a"
    and "s_module a' = s_module a \<or> (\<exists>m. s_module a' = Some m \<and> Main_ctor E m = Inl e)"
proof -
  define a1 where "a1 = print (P_importing name) a"
  define r1 where "r1 = (if s_instance a1 \<noteq> None then prune_module E a1 else Returned a1)"
  have name: "length name > 0"
    using assms by (auto simp add: load_module_def split: if_splits)
  then have lm: "load_module E name a = then_do r1 (\<lambda>a2. then_do (import_module E name a2) (instantiate E))"
    by (simp add: load_module_def a1_def r1_def Let_def)
  have r1: "s_module (state_of r1) = s_module a" "s_executing (state_of r1) = s_executing a"
    "map_option iid (s_instance (state_of r1)) = map_option iid (s_instance a)"
    "trace (state_of r1) = trace a @ prune_calls a"
    by (auto simp add: r1_def a1_def prune_module_session prune_calls_def)
  have "s_executing a' = s_executing a
    \<and> map_option iid (s_instance a') = map_option iid (s_instance a)
    \<and> trace a' = trace a @ prune_calls a
    \<and> (s_module a' = s_module a \<or> (\<exists>m. s_module a' = Some m \<and> Main_ctor E m = Inl e))"
  proof (cases r1)
    case (Raised e1 a2)
    with assms lm r1 show ?thesis by simp
  next
    case (Returned a2)
    note R1 = this
    show ?thesis
    proof (cases "import_module E name a2")
      case (Raised e2 a3)
      with assms lm R1 have "a' = a3" "e = e2" by simp_all
      with Raised r1 R1 import_module_session [of E name a2] import_module_Raised [of E name a2 e2 a3]
      show ?thesis by simp
    next
      case (Returned a3)
      with assms lm R1 have i: "instantiate E a3 = Raised e a'" by simp
      from Returned import_module_session [of E name a2] r1 R1
      have a3: "s_executing a3 = s_executing a" "s_instance a3 = s_instance a2"
        "trace a3 = trace a @ prune_calls a"
        "map_option iid (s_instance a2) = map_option iid (s_instance a)" by simp_all
      have "s_module a' = s_module a \<or> (\<exists>m. s_module a' = Some m \<and> Main_ctor E m = Inl e)"
      proof (cases "s_module a3")
        case None
        with instantiate_Raised(1) [OF i] R1 r1 Returned
        show ?thesis
          by (auto simp add: import_module_def Let_def split: sum.splits exn.splits if_splits)
      next
        case (Some m)
        with instantiate_Raised(1,5) [OF i] show ?thesis by simp
      qed
      with instantiate_Raised(2,3,4) [OF i] a3 show ?thesis by simp
    qed
  qed
  then show "s_executing a' = s_executing a"
    and "map_option iid (s_instance a') = map_option iid (s_instance a)"
    and "trace a' = trace a @ prune_calls a"
    and "s_module a' = s_module a \<or> (\<exists>m. s_module a' = Some m \<and> Main_ctor E m = Inl e)"
    by simp_all
qed


lemma drain_single:
  assumes "str_strip cmd = cmd" and "s_remote_commands a = []"
  shows "drain E during (put_all [QStr cmd] a) =
    (case dispatch E cmd a of
       Raised e a1 \<Rightarrow> Raised e (put_all (arrived during) a1)
     | Returned a1 \<Rightarrow> drain E (tl during) (put_all (arrived during) a1))"
proof -
  have "(put_all [QStr cmd] a)\<lparr>s_remote_commands := []\<rparr> = a"
    using assms(2) by (simp add: put_all_eq set_queue_def)
  then show ?thesis
    using assms by (subst drain.simps) simp
qed

text \<open>
  Claim C3, as amended. \<^verbatim>\<open>load_module\<close> raises what the import or \<^verbatim>\<open>Main()\<close>
  raised, and the drain loop of the tick handles \<^verbatim>\<open>queue.Empty\<close> only. For a
  \<^verbatim>\<open>load\<close> command whose load raises, the exception leaves the frame and the
  top-level loop, which prints it when it is an \<^verbatim>\<open>Exception\<close>; the launcher
  terminates. At the raise the executing flag and the instance are the ones from
  before the attempt, the prior instance (if any) has had its \<^verbatim>\<open>prune()\<close> called
  once, and the current module is the one from before, or already the imported module
  when it was \<^verbatim>\<open>Main()\<close> that raised.
\<close>

theorem failed_load_leaves_frame:
  assumes "startswith cmd ''load ''" and "str_strip cmd = cmd"
    and "s_remote_commands a = []"
    and "load_module E (drop 5 cmd) a = Raised e a'"
  shows "exn_of (main_loop E (([QStr cmd], during) # frames) a) = Some e
    \<and> out (state_of (main_loop E (([QStr cmd], during) # frames) a))
        = out a' @ (if is_Exception e then [P_error_in_main_loop e] else [])
    \<and> s_executing a' = s_executing a
    \<and> map_option iid (s_instance a') = map_option iid (s_instance a)
    \<and> trace a' = trace a @ prune_calls a
    \<and> (s_module a' = s_module a \<or> (\<exists>m. s_module a' = Some m \<and> Main_ctor E m = Inl e))"
proof -
  have "dispatch E cmd a = Raised e a'"
    using assms(1,4) by (simp add: dispatch_load)
  then have "drain E during (put_all [QStr cmd] a) = Raised e (put_all (arrived during) a')"
    using assms(2,3) by (simp add: drain_single)
  then have "main_loop E (([QStr cmd], during) # frames) a
      = Raised e (if is_Exception e
                  then print (P_error_in_main_loop e) (put_all (arrived during) a')
                  else put_all (arrived during) a')"
    by (simp add: main_loop_tick_def)
  then have "exn_of (main_loop E (([QStr cmd], during) # frames) a) = Some e"
    and "out (state_of (main_loop E (([QStr cmd], during) # frames) a))
        = out a' @ (if is_Exception e then [P_error_in_main_loop e] else [])"
    by (simp_all add: put_all_eq)
  with load_module_Raised [OF assms(4)] show ?thesis
    by simp
qed

text \<open>Witness of C3: \<^verbatim>\<open>load nosuch\<close> applied to the running demo session.\<close>

lemma nosuch_raises:
  "exn_of (load_module demo_env ''nosuch'' running_demo) = Some ModuleNotFoundError"
  by code_simp

theorem failed_load_leaves_frame_witness:
  "startswith ''load nosuch'' ''load '' \<and> str_strip ''load nosuch'' = ''load nosuch''
   \<and> s_remote_commands running_demo = []
   \<and> exn_of (load_module demo_env (drop 5 ''load nosuch'') running_demo) = Some ModuleNotFoundError
   \<and> exn_of (main_loop demo_env [([QStr ''load nosuch''], [])] running_demo)
       = Some ModuleNotFoundError
   \<and> trace (state_of (load_module demo_env ''nosuch'' running_demo))
       = [Construct 0, Call 0 Start, Call 0 Tick, Call 0 Prune]"
proof -
  have c: "startswith ''load nosuch'' ''load ''" "str_strip ''load nosuch'' = ''load nosuch''"
    by code_simp+
  have d: "drop 5 ''load nosuch'' = ''nosuch''"
    by simp
  have l: "load_module demo_env (drop 5 ''load nosuch'') running_demo
      = Raised ModuleNotFoundError (state_of (load_module demo_env ''nosuch'' running_demo))"
    unfolding d by (rule Raised_exn_of [OF nosuch_raises])
  show ?thesis
    using failed_load_leaves_frame [OF c running_demo_facts(4) l, of "[]" "[]"] c nosuch_raises
    by (simp add: running_demo_facts prune_calls_def running_demo_instance demo_inst_def)
qed

text \<open>
  Counterexample to C3 as stated: \<^verbatim>\<open>load nosuch\<close> ends the top-level loop, and
  \<^verbatim>\<open>load broken\<close>, whose \<^verbatim>\<open>Main()\<close> raises, ends it with the current module replaced.
\<close>

theorem failed_load_nonfatal_counterexample:
  "has_raised (main_loop demo_env [([QStr ''load nosuch''], [])] running_demo)
   \<and> s_module running_demo = Some (PyModule ''demo'')
   \<and> s_module (state_of (main_loop demo_env [([QStr ''load broken''], [])] running_demo))
       = Some (PyModule ''broken'')
   \<and> has_raised (main_loop demo_env [([QStr ''load broken''], [])] running_demo)"
  by code_simp

section \<open>Start while running\<close>

text \<open>
  Claim C4. When the session is \<open>Running\<close>, the \<^verbatim>\<open>start\<close> command calls
  \<^verbatim>\<open>cancel()\<close> on the instance exactly once and then, when \<^verbatim>\<open>cancel()\<close> returned,
  \<^verbatim>\<open>start()\<close> exactly once: the calls it adds are one \<^verbatim>\<open>cancel()\<close> followed by one
  \<^verbatim>\<open>start()\<close>, never a \<^verbatim>\<open>start()\<close> without the \<^verbatim>\<open>cancel()\<close> before it and never
  nothing. An exception of \<^verbatim>\<open>cancel()\<close> propagates before \<^verbatim>\<open>start()\<close> is reached.
  When the command returns the session is \<open>Running\<close>.
\<close>

theorem start_while_running_cancels_first:
  assumes "session a = Running" and "s_instance a = Some i"
  shows "trace (state_of (dispatch E ''start'' a))
      = trace a @ Call (iid i) Cancel #
          (case snd (instance_method E (cls i) Cancel (dict i)) of
             None \<Rightarrow> [Call (iid i) Start]
           | Some e \<Rightarrow> [])
    \<and> (case exn_of (dispatch E ''start'' a) of
          None \<Rightarrow> session (state_of (dispatch E ''start'' a)) = Running
        | Some e \<Rightarrow> True)"
proof -
  have ex: "s_executing a"
    using assms by (simp add: session_def split: if_splits)
  obtain d1 r1 where c: "instance_method E (cls i) Cancel (dict i) = (d1, r1)"
    by (cases "instance_method E (cls i) Cancel (dict i)")
  obtain d2 r2 where s: "instance_method E (cls i) Start d1 = (d2, r2)"
    by (cases "instance_method E (cls i) Start d1")
  have d: "dispatch E ''start'' a = start_module E a"
    by (simp add: dispatch_def)
  show ?thesis
  proof (cases r1)
    case (Some e)
    with assms(2) ex c show ?thesis
      unfolding d by (simp add: start_module_def cancel_module_def call_method_def)
  next
    case None
    with assms(2) ex c s show ?thesis
      unfolding d
      by (cases r2) (simp_all add: start_module_def cancel_module_def call_method_def session_def)
  qed
qed

text \<open>Witness of C4: \<^verbatim>\<open>start\<close> applied to the running demo session.\<close>

theorem start_while_running_cancels_first_witness:
  "session running_demo = Running \<and> s_instance running_demo = Some demo_inst
   \<and> trace (state_of (dispatch demo_env ''start'' running_demo))
       = [Construct 0, Call 0 Start, Call 0 Tick, Call 0 Cancel, Call 0 Start]
   \<and> session (state_of (dispatch demo_env ''start'' running_demo)) = Running"
proof -
  have r: "session running_demo = Running"
    by code_simp
  have e: "exn_of (dispatch demo_env ''start'' running_demo) = None"
    by code_simp
  show ?thesis
    using start_while_running_cancels_first [OF r running_demo_instance, of demo_env] r e
    by (simp add: running_demo_instance running_demo_facts demo_inst_def demo_env_def)
qed

section \<open>No call before a load\<close>

text \<open>
  A trace has no orphan call when every call on an instance comes after the
  construction of that instance. The invariant of the session: the trace has no orphan
  call, a session without instance has an empty trace, and the instance a session owns
  has been constructed.
\<close>

fun no_orphan_calls :: "nat list \<Rightarrow> event list \<Rightarrow> bool" where
  "no_orphan_calls made [] = True"
| "no_orphan_calls made (Construct i # es) = no_orphan_calls (i # made) es"
| "no_orphan_calls made (Call i m # es) = (i \<in> set made \<and> no_orphan_calls made es)"

definition session_inv :: "app \<Rightarrow> bool" where
  "session_inv a =
     (no_orphan_calls [] (trace a) \<and>
      (case s_instance a of
         None \<Rightarrow> trace a = []
       | Some i \<Rightarrow> Construct (iid i) \<in> set (trace a)))"

lemma no_orphan_append_Call:
  "no_orphan_calls made (es @ [Call i m])
    = (no_orphan_calls made es \<and> (i \<in> set made \<or> Construct i \<in> set es))"
proof (induction es arbitrary: made)
  case Nil
  show ?case by simp
next
  case (Cons x es)
  show ?case by (cases x) (auto simp add: Cons.IH)
qed

lemma no_orphan_append_Construct:
  "no_orphan_calls made (es @ [Construct i]) = no_orphan_calls made es"
proof (induction es arbitrary: made)
  case Nil
  show ?case by simp
next
  case (Cons x es)
  show ?case by (cases x) (simp_all add: Cons.IH)
qed

lemma inv_print [simp]: "session_inv (print l a) = session_inv a"
  by (simp add: session_inv_def split: option.splits)

lemma inv_set_queue [simp]: "session_inv (set_queue q a) = session_inv a"
  by (simp add: session_inv_def split: option.splits)

lemma inv_remote_commands [simp]: "session_inv (a\<lparr>s_remote_commands := q\<rparr>) = session_inv a"
  by (simp add: session_inv_def split: option.splits)

lemma inv_executing [simp]: "session_inv (a\<lparr>s_executing := b\<rparr>) = session_inv a"
  by (simp add: session_inv_def split: option.splits)

lemma inv_init: "session_inv (init_app path)"
  by (simp add: session_inv_def init_app_def)

lemma inv_then_do:
  assumes "session_inv (state_of r)" and "\<And>a. session_inv a \<Longrightarrow> session_inv (state_of (f a))"
  shows "session_inv (state_of (then_do r f))"
  using assms by (cases r) simp_all

lemma inv_call_method:
  "session_inv a \<Longrightarrow> session_inv (state_of (call_method E m a))"
  by (auto simp add: call_method_def session_inv_def no_orphan_append_Call Let_def
      split: option.splits prod.splits)

lemma inv_prune_module: "session_inv a \<Longrightarrow> session_inv (state_of (prune_module E a))"
  using inv_call_method [of "print P_pruning a" E Prune]
  by (cases "call_method E Prune (print P_pruning a)") (simp_all add: prune_module_def)

lemma inv_called_then_done:
  "session_inv a \<Longrightarrow>
   session_inv (state_of (then_do (call_method E m (print l a)) (\<lambda>a1. Returned (print P_done a1))))"
  by (rule inv_then_do) (simp_all add: inv_call_method)

lemma inv_cancel_module: "session_inv a \<Longrightarrow> session_inv (state_of (cancel_module E a))"
  unfolding cancel_module_def
  by (rule inv_then_do) (simp_all add: inv_called_then_done)

lemma inv_start_module: "session_inv a \<Longrightarrow> session_inv (state_of (start_module E a))"
  unfolding start_module_def
  by (simp, intro impI inv_then_do) (simp_all add: inv_call_method inv_cancel_module)

lemma inv_cong:
  "trace a' = trace a \<Longrightarrow> s_instance a' = s_instance a \<Longrightarrow> session_inv a' = session_inv a"
  by (simp add: session_inv_def split: option.splits)

lemma inv_import_module: "session_inv a \<Longrightarrow> session_inv (state_of (import_module E name a))"
  using inv_cong [OF import_module_session(3) import_module_session(1), of E name a] by simp

lemma inv_instantiate: "session_inv a \<Longrightarrow> session_inv (state_of (instantiate E a))"
  by (auto simp add: instantiate_def session_inv_def no_orphan_append_Construct Let_def
      split: sum.splits option.splits)

lemma inv_load_module: "session_inv a \<Longrightarrow> session_inv (state_of (load_module E name a))"
  unfolding load_module_def Let_def
  by (simp, intro impI conjI inv_then_do)
     (simp_all add: inv_prune_module inv_import_module inv_instantiate)

lemma inv_exec_on_instance:
  "session_inv a \<Longrightarrow> session_inv (state_of (exec_on_instance E src a))"
  by (auto simp add: exec_on_instance_def session_inv_def Let_def split: option.splits prod.splits)

lemma inv_exec_lines: "session_inv a \<Longrightarrow> session_inv (state_of (exec_lines E ls a))"
proof (induction ls arbitrary: a)
  case Nil
  then show ?case by simp
next
  case (Cons l ls)
  then show ?case by (simp add: inv_then_do inv_exec_on_instance)
qed

lemma inv_load_config_body:
  "session_inv a \<Longrightarrow> session_inv (state_of (load_config_body E file a))"
  unfolding load_config_body_def
  by (cases "open_readlines E file")
     (simp_all add: inv_then_do inv_load_module inv_exec_lines)

lemma inv_load_config:
  assumes "session_inv a"
  shows "session_inv (state_of (load_config E name a))"
proof -
  have *: "session_inv (state_of r) \<Longrightarrow>
    session_inv (state_of (case r of Returned a2 \<Rightarrow> Returned a2
       | Raised e a2 \<Rightarrow> if is_Exception e then Returned (print (P_config_error name e) a2)
                        else Raised e a2))" for r
    by (cases r) simp_all
  show ?thesis
    unfolding load_config_def Let_def
    by (rule *) (simp add: assms inv_load_config_body)
qed

lemma inv_dispatch: "session_inv a \<Longrightarrow> session_inv (state_of (dispatch E cmd a))"
  by (simp add: dispatch_def inv_start_module inv_cancel_module inv_prune_module
      inv_load_module inv_load_config inv_exec_on_instance)

lemma inv_put_all [simp]: "session_inv (put_all xs a) = session_inv a"
  by (simp add: put_all_eq)

lemma inv_drain: "session_inv a \<Longrightarrow> session_inv (state_of (drain E arrivals a))"
proof (induction E arrivals a rule: drain.induct)
  case (1 E arrivals a)
  show ?case
  proof (cases "s_remote_commands a")
    case Nil
    with "1.prems" show ?thesis by (subst drain.simps) simp
  next
    case (Cons item rest)
    have i: "session_inv (state_of (dispatch E (str_strip (py_str item)) (a\<lparr>s_remote_commands := rest\<rparr>)))"
      using "1.prems" by (simp add: inv_dispatch)
    show ?thesis
    proof (cases "dispatch E (str_strip (py_str item)) (a\<lparr>s_remote_commands := rest\<rparr>)")
      case (Raised e a1)
      with i Cons show ?thesis by (subst drain.simps) simp
    next
      case (Returned a1)
      with i Cons "1.IH" [OF Cons Returned] show ?thesis by (subst drain.simps) simp
    qed
  qed
qed

lemma inv_main_loop_tick:
  "session_inv a \<Longrightarrow> session_inv (state_of (main_loop_tick E arrivals a))"
  unfolding main_loop_tick_def
  by (intro inv_then_do) (simp_all add: inv_drain inv_call_method)

lemma inv_main_loop: "session_inv a \<Longrightarrow> session_inv (state_of (main_loop E frames a))"
proof (induction frames arbitrary: a)
  case Nil
  then show ?case by simp
next
  case (Cons f frames)
  obtain queued during where f: "f = (queued, during)" by (cases f)
  have t: "session_inv (state_of (main_loop_tick E during (put_all queued a)))"
    using Cons.prems by (simp add: inv_main_loop_tick)
  show ?case
  proof (cases "main_loop_tick E during (put_all queued a)")
    case (Returned a1)
    with t Cons.IH [of a1] f show ?thesis by simp
  next
    case (Raised e a1)
    with t f show ?thesis by simp
  qed
qed

lemma inv_MainApp_init: "session_inv (state_of (MainApp_init E path))"
  unfolding MainApp_init_def
  by (intro inv_then_do)
     (simp_all add: inv_init inv_load_config inv_load_module inv_start_module split: option.splits)

lemma inv_launcher: "session_inv (state_of (launcher E path frames))"
  using inv_MainApp_init [of E path]
  by (cases "MainApp_init E path") (simp_all add: launcher_def inv_main_loop)


lemma no_instance_no_call:
  assumes "s_instance a = None" and "cmd \<in> set [''start'', ''prune'', ''cancel'', ''stop'']"
  shows "trace (state_of (dispatch E cmd a)) = trace a \<and> exn_of (dispatch E cmd a) = None"
  using assms
  by (auto simp add: dispatch_def start_module_def cancel_module_def prune_module_def)

text \<open>
  Claim C5. Whatever the environment, the options and the frames (the items queued
  before each tick and the items arriving during its drain), every call of a method
  of an instance comes after the load that constructed that instance: this holds for
  the whole program and for the loop run from the initial fields. While no instance
  has been loaded the trace is empty, and \<^verbatim>\<open>start\<close>, \<^verbatim>\<open>prune\<close>, \<^verbatim>\<open>cancel\<close> and
  \<^verbatim>\<open>stop\<close> applied to a session without instance add no call.
\<close>

theorem no_call_without_load:
  "no_orphan_calls [] (trace (state_of (launcher E path frames)))
   \<and> no_orphan_calls [] (trace (state_of (main_loop E frames (init_app path))))
   \<and> (s_instance (state_of (main_loop E frames (init_app path))) = None \<longrightarrow>
        trace (state_of (main_loop E frames (init_app path))) = [])
   \<and> (s_instance a = None \<longrightarrow>
        trace (state_of (dispatch E ''start'' a)) = trace a
        \<and> trace (state_of (dispatch E ''prune'' a)) = trace a
        \<and> trace (state_of (dispatch E ''cancel'' a)) = trace a
        \<and> trace (state_of (dispatch E ''stop'' a)) = trace a)"
proof -
  have l: "session_inv (state_of (launcher E path frames))"
    by (rule inv_launcher)
  have m: "session_inv (state_of (main_loop E frames (init_app path)))"
    by (rule inv_main_loop [OF inv_init])
  from l have 1: "no_orphan_calls [] (trace (state_of (launcher E path frames)))"
    by (simp add: session_inv_def)
  from m have 2: "no_orphan_calls [] (trace (state_of (main_loop E frames (init_app path))))"
    by (simp add: session_inv_def)
  from m have 3: "s_instance (state_of (main_loop E frames (init_app path))) = None \<longrightarrow>
        trace (state_of (main_loop E frames (init_app path))) = []"
    by (simp add: session_inv_def split: option.splits)
  have 4: "s_instance a = None \<longrightarrow>
        trace (state_of (dispatch E ''start'' a)) = trace a
        \<and> trace (state_of (dispatch E ''prune'' a)) = trace a
        \<and> trace (state_of (dispatch E ''cancel'' a)) = trace a
        \<and> trace (state_of (dispatch E ''stop'' a)) = trace a"
    using no_instance_no_call [of a _ E] by simp
  from 1 2 3 4 show ?thesis by blast
qed

text \<open>
  Witness of C5: \<^verbatim>\<open>start\<close>, \<^verbatim>\<open>prune\<close>, \<^verbatim>\<open>cancel\<close> from the initial fields leave
  the session without instance and the trace empty.
\<close>

theorem no_call_without_load_witness:
  "s_instance (state_of (main_loop demo_env
       [([QStr ''start'', QStr ''prune'', QStr ''cancel''], [])] (init_app []))) = None
   \<and> trace (state_of (main_loop demo_env
       [([QStr ''start'', QStr ''prune'', QStr ''cancel''], [])] (init_app []))) = []
   \<and> s_instance (init_app []) = None
   \<and> trace (state_of (dispatch demo_env ''start'' (init_app []))) = []
   \<and> no_orphan_calls [] (trace (state_of (main_loop demo_env
       [([QStr ''load demo'', QStr ''start''], [])] (init_app []))))"
proof -
  have n: "s_instance (state_of (main_loop demo_env
       [([QStr ''start'', QStr ''prune'', QStr ''cancel''], [])] (init_app []))) = None"
    by (simp add: demo_env_def run_simps)
  have i: "s_instance (init_app []) = None" "trace (init_app []) = []"
    by (simp_all add: init_app_def)
  show ?thesis
    using no_call_without_load [of demo_env "[]"
        "[([QStr ''start'', QStr ''prune'', QStr ''cancel''], [])]" "init_app []"]
      no_call_without_load [of demo_env "[]" "[([QStr ''load demo'', QStr ''start''], [])]" "init_app []"]
      n i
    by simp
qed

section \<open>Study configs\<close>

text \<open>
  Claim C6. When the file a \<^verbatim>\<open>config\<close> command names exists neither in the working
  directory nor under the study path, the command returns normally and the only change
  is two printed lines, the second one the report that the file was not found: the
  module, the instance, the executing flag, the queue and the trace (so the calls on
  the instance) are what they were.
\<close>

theorem unresolved_config_is_noop:
  assumes "startswith cmd ''config ''"
    and "\<not> path_exists E (config_name cmd)"
    and "\<not> path_exists E (path_join E (opts_studypath E) (config_name cmd))"
  shows "dispatch E cmd a =
    Returned (a\<lparr>out := out a @ [P_attempt_config (config_name cmd),
                                 P_file_not_found (config_name cmd) (opts_studypath E)]\<rparr>)"
  using assms by (simp add: dispatch_config load_config_def print_def)

text \<open>Witness of C6: \<^verbatim>\<open>config missing.cfg\<close> applied to the running demo session.\<close>

theorem unresolved_config_is_noop_witness:
  "startswith ''config missing.cfg'' ''config ''
   \<and> config_name ''config missing.cfg'' = ''missing.cfg''
   \<and> path_exists demo_env ''missing.cfg'' = False
   \<and> path_exists demo_env (path_join demo_env (opts_studypath demo_env) ''missing.cfg'') = False
   \<and> dispatch demo_env ''config missing.cfg'' running_demo =
       Returned (running_demo\<lparr>out := out running_demo @
         [P_attempt_config ''missing.cfg'',
          P_file_not_found ''missing.cfg'' ''studies/SampleStudy'']\<rparr>)"
proof -
  have s: "startswith ''config missing.cfg'' ''config ''"
    by code_simp
  have n: "config_name ''config missing.cfg'' = ''missing.cfg''"
    by code_simp
  have p: "\<not> path_exists demo_env (config_name ''config missing.cfg'')"
    "\<not> path_exists demo_env (path_join demo_env (opts_studypath demo_env)
          (config_name ''config missing.cfg''))"
    unfolding n by (simp_all add: demo_env_def)
  show ?thesis
    using unresolved_config_is_noop [OF s p, of running_demo] s n p
    by (simp add: demo_env_def)
qed

section \<open>Setup\<close>

text \<open>
  Claim C10. A \<^verbatim>\<open>setup\<close> command always returns normally: whatever \<^verbatim>\<open>exec\<close>
  raises, and the \<^verbatim>\<open>AttributeError\<close> of a session without instance, is caught and
  dropped. The module, the instance (its identity and class) and the executing flag
  are unchanged and no method of the instance is called; without an instance nothing
  changes at all.
\<close>

theorem setup_never_raises:
  assumes "startswith cmd ''setup ''"
  shows "exn_of (dispatch E cmd a) = None
    \<and> s_module (state_of (dispatch E cmd a)) = s_module a
    \<and> map_option iid (s_instance (state_of (dispatch E cmd a))) = map_option iid (s_instance a)
    \<and> map_option cls (s_instance (state_of (dispatch E cmd a))) = map_option cls (s_instance a)
    \<and> s_executing (state_of (dispatch E cmd a)) = s_executing a
    \<and> trace (state_of (dispatch E cmd a)) = trace a
    \<and> (s_instance a = None \<longrightarrow> dispatch E cmd a = Returned a)"
  using assms
  by (simp add: dispatch_setup exec_on_instance_session) (simp add: exec_on_instance_def)

text \<open>
  Witness of C10: a statement on which \<^verbatim>\<open>exec\<close> raises, applied to the running demo
  session and to a session without instance.
\<close>

theorem setup_never_raises_witness:
  "startswith ''setup y=1/0'' ''setup ''
   \<and> snd (py_exec demo_env (drop 6 ''setup y=1/0'') (dict demo_inst))
       = Some (OtherException ''unsupported statement'')
   \<and> exn_of (dispatch demo_env ''setup y=1/0'' running_demo) = None
   \<and> s_instance (init_app []) = None
   \<and> dispatch demo_env ''setup y=1/0'' (init_app []) = Returned (init_app [])"
proof -
  have s: "startswith ''setup y=1/0'' ''setup ''"
    by code_simp
  have e: "snd (py_exec demo_env (drop 6 ''setup y=1/0'') (dict demo_inst))
       = Some (OtherException ''unsupported statement'')"
    by code_simp
  have i: "s_instance (init_app []) = None"
    by (simp add: init_app_def)
  show ?thesis
    using setup_never_raises [OF s, of demo_env running_demo]
      setup_never_raises [OF s, of demo_env "init_app []"] s e i
    by simp
qed

section \<open>Loading a study config\<close>

text \<open>
  The specification's words for the remaining lines of a config: each line is applied
  as an assignment to the attribute namespace, in file order; the first line that
  raises ends the run.
\<close>

fun apply_assignments :: "env \<Rightarrow> string list \<Rightarrow> attrs \<Rightarrow> attrs \<times> exn option" where
  "apply_assignments E [] d = (d, None)"
| "apply_assignments E (l # ls) d =
     (case py_exec E l d of
        (d', None) \<Rightarrow> apply_assignments E ls d'
      | (d', Some e) \<Rightarrow> (d', Some e))"

definition with_dict :: "attrs \<Rightarrow> app \<Rightarrow> app" where
  "with_dict d a = a\<lparr>s_instance := map_option (\<lambda>i. i\<lparr>dict := d\<rparr>) (s_instance a)\<rparr>"

lemma exec_lines_assignments:
  assumes "s_instance a = Some i"
  shows "exec_lines E ls a =
    (case apply_assignments E ls (dict i) of
       (d, None) \<Rightarrow> Returned (with_dict d a)
     | (d, Some e) \<Rightarrow> Raised e (with_dict d a))"
  using assms
proof (induction ls arbitrary: a i)
  case Nil
  then show ?case by (simp add: with_dict_def)
next
  case (Cons l ls)
  obtain d r where p: "py_exec E l (dict i) = (d, r)"
    by (cases "py_exec E l (dict i)")
  show ?case
  proof (cases r)
    case (Some e)
    with p Cons.prems show ?thesis
      by (simp add: exec_on_instance_def with_dict_def)
  next
    case None
    have "exec_lines E (l # ls) a = exec_lines E ls (with_dict d a)"
      using p None Cons.prems by (simp add: exec_on_instance_def with_dict_def)
    moreover have "s_instance (with_dict d a) = Some (i\<lparr>dict := d\<rparr>)"
      using Cons.prems by (simp add: with_dict_def)
    moreover have "with_dict d' (with_dict d a) = with_dict d' a" for d'
      using Cons.prems by (simp add: with_dict_def)
    ultimately show ?thesis
      using p None Cons.IH [of "with_dict d a" "i\<lparr>dict := d\<rparr>"]
      by (simp split: prod.splits option.splits)
  qed
qed

lemma load_config_resolved:
  assumes "config_file E name = Some file"
  shows "load_config E name a =
    (case load_config_body E file (print (P_attempt_config name) a) of
       Returned a2 \<Rightarrow> Returned a2
     | Raised e a2 \<Rightarrow>
         if is_Exception e then Returned (print (P_config_error name e) a2) else Raised e a2)"
  using assms by (auto simp add: load_config_def config_file_def Let_def split: if_splits)

lemma import_module_Returned:
  assumes "import_module E name a = Returned a'"
  shows "\<exists>m p. py_import E p name = Inr m \<and> s_module a' = Some m"
  using assms
  by (auto simp add: import_module_def Let_def split: sum.splits exn.splits if_splits)

lemma instantiate_Returned:
  assumes "instantiate E a = Returned a'" and "s_module a = Some m"
  shows "\<exists>d0. Main_ctor E m = Inr d0 \<and> s_module a' = Some m
    \<and> s_instance a' = Some \<lparr>iid = constructed a, cls = m,
          dict = launcher_attrs E d0\<rparr>
    \<and> s_executing a' = s_executing a
    \<and> trace a' = trace a @ [Construct (constructed a)]"
  using assms
  by (auto simp add: instantiate_def Let_def split: sum.splits)

lemma load_module_Returned:
  assumes "load_module E name a = Returned a'" and "name \<noteq> []"
  shows "\<exists>m p d0. py_import E p name = Inr m \<and> Main_ctor E m = Inr d0
    \<and> s_module a' = Some m
    \<and> s_instance a' = Some \<lparr>iid = constructed a, cls = m,
          dict = launcher_attrs E d0\<rparr>
    \<and> s_executing a' = s_executing a
    \<and> trace a' = trace a @ prune_calls a @ [Construct (constructed a)]"
proof -
  define a1 where "a1 = print (P_importing name) a"
  define r1 where "r1 = (if s_instance a1 \<noteq> None then prune_module E a1 else Returned a1)"
  have lm: "load_module E name a = then_do r1 (\<lambda>a2. then_do (import_module E name a2) (instantiate E))"
    using assms(2) by (simp add: load_module_def a1_def r1_def Let_def)
  have r1: "s_executing (state_of r1) = s_executing a"
    "trace (state_of r1) = trace a @ prune_calls a"
    "constructed (state_of r1) = constructed a"
    by (auto simp add: r1_def a1_def prune_module_session prune_module_constructed prune_calls_def)
  from assms(1) lm obtain a2 where R1: "r1 = Returned a2"
    by (cases r1) simp_all
  with assms(1) lm obtain a3 where R2: "import_module E name a2 = Returned a3"
    by (cases "import_module E name a2") simp_all
  with assms(1) lm R1 have R3: "instantiate E a3 = Returned a'"
    by simp
  from import_module_Returned [OF R2] obtain m p
    where m: "py_import E p name = Inr m" "s_module a3 = Some m" by blast
  have a3: "s_executing a3 = s_executing a" "trace a3 = trace a @ prune_calls a"
    "constructed a3 = constructed a"
    using r1 R1 R2 import_module_session [of E name a2] import_module_constructed [of E name a2]
    by simp_all
  from instantiate_Returned [OF R3 m(2)] m(1) a3 show ?thesis
    by auto
qed


text \<open>
  Claim C7. When the config file is found and read, its first line names a module and
  the load of that module returns, then the current module is the module imported
  under that name, the current instance is the newly constructed one, and its
  \<^verbatim>\<open>__dict__\<close> is what applying the remaining lines, in file order, makes of the
  \<^verbatim>\<open>__dict__\<close> that \<^verbatim>\<open>Main()\<close> and the launcher's two attributes gave it. A line that
  raises ends the run; the handler of \<^verbatim>\<open>load_config\<close> catches it when it is an
  \<^verbatim>\<open>Exception\<close>.
\<close>

theorem config_loads_then_assigns:
  assumes "config_file E name = Some file"
    and "open_readlines E file = Inr (first # rest)"
    and "str_strip first \<noteq> []"
    and "exn_of (load_module E (str_strip first) (print (P_attempt_config name) a)) = None"
  shows "\<exists>m p d0. py_import E p (str_strip first) = Inr m \<and> Main_ctor E m = Inr d0
    \<and> s_module (state_of (load_config E name a)) = Some m
    \<and> s_instance (state_of (load_config E name a))
        = Some \<lparr>iid = constructed a, cls = m,
                 dict = fst (apply_assignments E rest (launcher_attrs E d0))\<rparr>
    \<and> exn_of (load_config E name a)
        = (case snd (apply_assignments E rest (launcher_attrs E d0)) of
             None \<Rightarrow> None
           | Some e \<Rightarrow> if is_Exception e then None else Some e)"
proof -
  define a0 where "a0 = print (P_attempt_config name) a"
  from assms(4) obtain a1 where l: "load_module E (str_strip first) a0 = Returned a1"
    unfolding a0_def by (cases "load_module E (str_strip first) (print (P_attempt_config name) a)") simp_all
  from load_module_Returned [OF l assms(3)] obtain m p d0
    where m: "py_import E p (str_strip first) = Inr m" "Main_ctor E m = Inr d0"
      "s_module a1 = Some m"
      "s_instance a1 = Some \<lparr>iid = constructed a0, cls = m, dict = launcher_attrs E d0\<rparr>"
    by blast
  define i0 where "i0 = \<lparr>iid = constructed a0, cls = m, dict = launcher_attrs E d0\<rparr>"
  define a1' where "a1' = print P_setting_variables a1"
  have i: "s_instance a1' = Some i0" "s_module a1' = Some m"
    using m by (simp_all add: a1'_def i0_def)
  obtain d r where aa: "apply_assignments E rest (launcher_attrs E d0) = (d, r)"
    by (cases "apply_assignments E rest (launcher_attrs E d0)")
  have body: "load_config_body E file a0 =
      then_do (exec_lines E rest a1') (\<lambda>a2. Returned (print P_config_loaded a2))"
    using assms(2) l by (simp add: load_config_body_def a1'_def)
  have fin: "s_module (state_of (load_config E name a)) = Some m
    \<and> s_instance (state_of (load_config E name a)) = Some (i0\<lparr>dict := d\<rparr>)
    \<and> exn_of (load_config E name a)
        = (case r of None \<Rightarrow> None | Some e \<Rightarrow> if is_Exception e then None else Some e)"
  proof (cases r)
    case None
    with aa i show ?thesis
      unfolding load_config_resolved [OF assms(1)] a0_def [symmetric] body
        exec_lines_assignments [OF i(1)]
      by (simp add: i0_def with_dict_def)
  next
    case (Some e)
    with aa i show ?thesis
      unfolding load_config_resolved [OF assms(1)] a0_def [symmetric] body
        exec_lines_assignments [OF i(1)]
      by (simp add: i0_def with_dict_def)
  qed
  have "i0\<lparr>dict := d\<rparr> = \<lparr>iid = constructed a, cls = m, dict = d\<rparr>"
    by (simp add: i0_def a0_def)
  with fin aa m(1,2) show ?thesis
    by auto
qed

text \<open>
  Witness of C7, the scenario of the claim: \<^verbatim>\<open>study.cfg\<close> holds the lines
  \<^verbatim>\<open>demo\<close> and \<^verbatim>\<open>x=5\<close>; after \<^verbatim>\<open>config study.cfg\<close> the module is \<^verbatim>\<open>demo\<close> and the
  attribute \<^verbatim>\<open>x\<close> of its instance is 5.
\<close>

theorem config_loads_then_assigns_witness:
  "config_file demo_env ''study.cfg'' = Some ''study.cfg''
   \<and> open_readlines demo_env ''study.cfg'' = Inr [''demo'' @ [CHR 0x0A], ''x=5'' @ [CHR 0x0A]]
   \<and> str_strip (''demo'' @ [CHR 0x0A]) = ''demo''
   \<and> exn_of (load_module demo_env ''demo'' (print (P_attempt_config ''study.cfg'') (init_app [])))
       = None
   \<and> s_module (state_of (dispatch demo_env ''config study.cfg'' (init_app [])))
       = Some (PyModule ''demo'')
   \<and> instance_attr (state_of (dispatch demo_env ''config study.cfg'' (init_app []))) ''x''
       = Some (PyInt 5)
   \<and> exn_of (dispatch demo_env ''config study.cfg'' (init_app [])) = None"
proof -
  have f: "config_file demo_env ''study.cfg'' = Some ''study.cfg''"
    by (simp add: config_file_def demo_env_def)
  have o: "open_readlines demo_env ''study.cfg'' = Inr [''demo'' @ [CHR 0x0A], ''x=5'' @ [CHR 0x0A]]"
    by (simp add: demo_env_def)
  have s: "str_strip (''demo'' @ [CHR 0x0A]) = ''demo''"
    by code_simp
  then have s': "str_strip (''demo'' @ [CHR 0x0A]) \<noteq> []"
    by simp
  have l: "exn_of (load_module demo_env (str_strip (''demo'' @ [CHR 0x0A]))
      (print (P_attempt_config ''study.cfg'') (init_app []))) = None"
    by code_simp
  have c: "dispatch demo_env ''config study.cfg'' (init_app [])
      = load_config demo_env ''study.cfg'' (init_app [])"
    by (simp add: dispatch_config startswith_def config_name_def endswith_def)
  have m: "s_module (state_of (load_config demo_env ''study.cfg'' (init_app [])))
      = Some (PyModule ''demo'')"
    by code_simp
  have x: "instance_attr (state_of (load_config demo_env ''study.cfg'' (init_app []))) ''x''
      = Some (PyInt 5)"
    by code_simp
  have e: "exn_of (load_config demo_env ''study.cfg'' (init_app [])) = None"
    by code_simp
  show ?thesis
    using config_loads_then_assigns [OF f o s' l] f o s l m x e
    by (simp add: c)
qed

section \<open>Loads without a module name\<close>

lemma exec_lines_no_instance:
  assumes "s_instance a = None"
  shows "state_of (exec_lines E ls a) = a"
    and "exn_of (exec_lines E ls a) = (if ls = [] then None else Some AttributeError)"
  using assms by (cases ls; simp add: exec_on_instance_def)+

text \<open>
  Claim C9, as amended. \<^verbatim>\<open>load_module\<close> with an empty name changes nothing, and
  so does the command \<^verbatim>\<open>load\<close>, which is what a \<^verbatim>\<open>load\<close> line without argument is
  once stripped. Loading a config whose first line is blank calls no method (the
  prior instance is not pruned) and leaves the module, the identity and class of the
  instance and the executing flag unchanged; the remaining lines of the file are
  still applied, in file order, to the \<^verbatim>\<open>__dict__\<close> of the prior instance.
\<close>

theorem blank_load_is_noop:
  assumes "config_file E name = Some file"
    and "open_readlines E file = Inr (first # rest)"
    and "str_strip first = []"
  shows "load_module E [] a = Returned a
    \<and> dispatch E ''load'' a = Returned a
    \<and> s_module (state_of (load_config E name a)) = s_module a
    \<and> map_option iid (s_instance (state_of (load_config E name a))) = map_option iid (s_instance a)
    \<and> map_option cls (s_instance (state_of (load_config E name a))) = map_option cls (s_instance a)
    \<and> s_executing (state_of (load_config E name a)) = s_executing a
    \<and> trace (state_of (load_config E name a)) = trace a
    \<and> map_option dict (s_instance (state_of (load_config E name a)))
        = map_option (\<lambda>i. fst (apply_assignments E rest (dict i))) (s_instance a)"
proof -
  define a0 where "a0 = print P_setting_variables (print (P_attempt_config name) a)"
  have 1: "load_module E [] a = Returned a"
    by (simp add: load_module_def)
  have 2: "dispatch E ''load'' a = Returned a"
    by (simp add: dispatch_def startswith_def)
  have body: "load_config_body E file (print (P_attempt_config name) a) =
      then_do (exec_lines E rest a0) (\<lambda>a2. Returned (print P_config_loaded a2))"
    using assms(2,3) by (simp add: load_config_body_def load_module_def a0_def)
  have 3: "s_module (state_of (load_config E name a)) = s_module a
    \<and> map_option iid (s_instance (state_of (load_config E name a))) = map_option iid (s_instance a)
    \<and> map_option cls (s_instance (state_of (load_config E name a))) = map_option cls (s_instance a)
    \<and> s_executing (state_of (load_config E name a)) = s_executing a
    \<and> trace (state_of (load_config E name a)) = trace a
    \<and> map_option dict (s_instance (state_of (load_config E name a)))
        = map_option (\<lambda>i. fst (apply_assignments E rest (dict i))) (s_instance a)"
  proof (cases "s_instance a")
    case None
    then have n: "s_instance a0 = None"
      by (simp add: a0_def)
    obtain r where r: "exec_lines E rest a0 = r" by simp
    have "state_of r = a0"
      using exec_lines_no_instance(1) [OF n, of E rest] r by simp
    then show ?thesis
      unfolding load_config_resolved [OF assms(1)] body r using None
      by (cases r) (simp_all add: a0_def)
  next
    case (Some i)
    then have i: "s_instance a0 = Some i"
      by (simp add: a0_def)
    obtain d r where aa: "apply_assignments E rest (dict i) = (d, r)"
      by (cases "apply_assignments E rest (dict i)")
    show ?thesis
      unfolding load_config_resolved [OF assms(1)] body exec_lines_assignments [OF i]
      using aa Some by (cases r) (simp_all add: a0_def with_dict_def)
  qed
  from 1 2 3 show ?thesis by blast
qed

text \<open>Witness of C9: \<^verbatim>\<open>blank.cfg\<close> loaded into the running demo session.\<close>

theorem blank_load_is_noop_witness:
  "config_file demo_env ''blank.cfg'' = Some ''blank.cfg''
   \<and> open_readlines demo_env ''blank.cfg'' = Inr [[CHR 0x0A], ''x=5'' @ [CHR 0x0A]]
   \<and> str_strip [CHR 0x0A] = []
   \<and> trace (state_of (load_config demo_env ''blank.cfg'' running_demo)) = trace running_demo
   \<and> map_option iid (s_instance (state_of (load_config demo_env ''blank.cfg'' running_demo)))
       = Some 0"
proof -
  have f: "config_file demo_env ''blank.cfg'' = Some ''blank.cfg''"
    by (simp add: config_file_def demo_env_def)
  have o: "open_readlines demo_env ''blank.cfg'' = Inr [[CHR 0x0A], ''x=5'' @ [CHR 0x0A]]"
    by (simp add: demo_env_def)
  have s: "str_strip [CHR 0x0A] = []"
    by code_simp
  show ?thesis
    using blank_load_is_noop [OF f o s, of running_demo] f o s
    by (simp add: running_demo_instance demo_inst_def)
qed

text \<open>
  Counterexample to C9 as stated: \<^verbatim>\<open>blank.cfg\<close> holds a blank line and the line
  \<^verbatim>\<open>x=5\<close>; \<^verbatim>\<open>config blank.cfg\<close> gives the prior instance the attribute \<^verbatim>\<open>x\<close>.
\<close>

theorem blank_config_noop_counterexample:
  "instance_attr running_demo ''x'' = None
   \<and> instance_attr (state_of (dispatch demo_env ''config blank.cfg'' running_demo)) ''x''
       = Some (PyInt 5)"
  by code_simp

section \<open>Arrivals during a drain\<close>

text \<open>
  Of a schedule of arrivals met by a drain that starts with \<open>n\<close> queued items: the
  items the drain takes in the same tick (those that arrive while the queue is not yet
  found empty), and the items left for a later tick.
\<close>

fun absorbed :: "nat \<Rightarrow> qitem list list \<Rightarrow> qitem list" where
  "absorbed n [] = []"
| "absorbed n (new # later) =
     (if n = 0 then [] else new @ absorbed (n - 1 + length new) later)"

fun deferred :: "nat \<Rightarrow> qitem list list \<Rightarrow> qitem list" where
  "deferred n [] = []"
| "deferred n (new # later) =
     (if n = 0 then concat (new # later) else deferred (n - 1 + length new) later)"

lemma absorbed_deferred: "absorbed n arrivals @ deferred n arrivals = concat arrivals"
  by (induction arrivals arbitrary: n) simp_all

lemma absorbed_0 [simp]: "absorbed 0 arrivals = []"
  by (cases arrivals) simp_all

lemma deferred_0 [simp]: "deferred 0 arrivals = concat arrivals"
  by (cases arrivals) simp_all

lemma absorbed_Suc:
  "absorbed (Suc n) arrivals
    = arrived arrivals @ absorbed (n + length (arrived arrivals)) (tl arrivals)"
  by (cases arrivals) (simp_all add: arrived_def)

lemma deferred_Suc:
  "deferred (Suc n) arrivals = deferred (n + length (arrived arrivals)) (tl arrivals)"
  by (cases arrivals) (simp_all add: arrived_def)

lemma drain_leaves_deferred:
  "drain E arrivals a = Returned a' \<Longrightarrow>
   s_remote_commands a' = deferred (length (s_remote_commands a)) arrivals"
proof (induction E arrivals a rule: drain.induct)
  case (1 E arrivals a)
  show ?case
  proof (cases "s_remote_commands a")
    case Nil
    with "1.prems" show ?thesis by (auto simp add: drain_Nil put_all_eq)
  next
    case (Cons item rest)
    show ?thesis
    proof (cases "dispatch E (str_strip (py_str item)) (a\<lparr>s_remote_commands := rest\<rparr>)")
      case (Raised e a1)
      with Cons "1.prems" show ?thesis by (simp add: drain_Cons)
    next
      case (Returned a1)
      have q: "s_remote_commands a1 = rest"
        using dispatch_keeps_queue [of E "str_strip (py_str item)" "a\<lparr>s_remote_commands := rest\<rparr>"]
          Returned by simp
      have "drain E (tl arrivals) (put_all (arrived arrivals) a1) = Returned a'"
        using Cons Returned "1.prems" by (simp add: drain_Cons)
      from "1.IH" [OF Cons Returned this] q Cons show ?thesis
        by (simp add: deferred_Suc)
    qed
  qed
qed

lemma set_queue_twice [simp]: "set_queue q (set_queue q' a) = set_queue q a"
  by (simp add: set_queue_def)

lemma map_outcome_comp:
  "map_outcome f (map_outcome g r) = map_outcome (\<lambda>a. f (g a)) r"
  by (cases r) simp_all

lemma drain_set_queue_Cons:
  "drain E arrivals (set_queue (item # rest) a) =
     (case dispatch E (str_strip (py_str item)) a of
        Raised e a1 \<Rightarrow> Raised e (set_queue (rest @ arrived arrivals) a1)
      | Returned a1 \<Rightarrow> drain E (tl arrivals) (set_queue (rest @ arrived arrivals) a1))"
proof -
  have eq: "(set_queue (item # rest) a)\<lparr>s_remote_commands := rest\<rparr> = set_queue rest a"
    by (simp add: set_queue_def)
  have d: "drain E arrivals (set_queue (item # rest) a) =
     (case dispatch E (str_strip (py_str item))
             ((set_queue (item # rest) a)\<lparr>s_remote_commands := rest\<rparr>) of
        Raised e a1 \<Rightarrow> Raised e (put_all (arrived arrivals) a1)
      | Returned a1 \<Rightarrow> drain E (tl arrivals) (put_all (arrived arrivals) a1))"
    by (rule drain_Cons) simp
  show ?thesis
    unfolding d eq dispatch_queue case_map_outcome
    by (simp add: put_all_eq split: outcome.splits)
qed

lemma drain_set_queue_Nil:
  "drain E arrivals (set_queue [] a) = Returned (set_queue (concat arrivals) a)"
  by (simp add: drain_Nil put_all_eq)

lemma drain_sequential:
  "map_outcome (set_queue []) (drain E arrivals (set_queue q a))
    = map_outcome (set_queue []) (drain E [] (set_queue (q @ absorbed (length q) arrivals) a))"
proof (induction "length q + length (concat arrivals)" arbitrary: q a arrivals rule: less_induct)
  case less
  show ?case
  proof (cases q)
    case Nil
    then show ?thesis by (simp add: drain_set_queue_Nil)
  next
    case (Cons item rest)
    have m: "length (rest @ arrived arrivals) + length (concat (tl arrivals))
        < length q + length (concat arrivals)"
      using Cons length_concat_arrivals [of arrivals] by simp
    have ab: "absorbed (length q) arrivals
        = arrived arrivals @ absorbed (length (rest @ arrived arrivals)) (tl arrivals)"
      using Cons by (simp add: absorbed_Suc)
    show ?thesis
    proof (cases "dispatch E (str_strip (py_str item)) a")
      case (Raised e a1)
      with Cons show ?thesis
        by (simp add: drain_set_queue_Cons)
    next
      case (Returned a1)
      have "map_outcome (set_queue []) (drain E arrivals (set_queue q a))
          = map_outcome (set_queue [])
              (drain E (tl arrivals) (set_queue (rest @ arrived arrivals) a1))"
        using Cons Returned by (simp add: drain_set_queue_Cons)
      also have "\<dots> = map_outcome (set_queue [])
          (drain E [] (set_queue ((rest @ arrived arrivals)
              @ absorbed (length (rest @ arrived arrivals)) (tl arrivals)) a1))"
        by (rule less [OF m])
      also have "\<dots> = map_outcome (set_queue [])
          (drain E [] (set_queue (q @ absorbed (length q) arrivals) a))"
        using Cons Returned ab by (simp add: drain_set_queue_Cons arrived_def)
      finally show ?thesis .
    qed
  qed
qed

text \<open>
  Claim C8, as amended. The drain takes no snapshot: it goes on until it finds the
  queue empty. With any schedule of arrivals it does to the session exactly what a
  drain without arrivals does when the absorbed items stand in the queue behind the
  items queued at the start, so an item put while an earlier command of the drain is
  applied is applied in the same tick, after every item put before it. When the
  drain returns, the queue holds exactly the deferred items, those put after the
  queue was found empty. Every arrival is absorbed or deferred: none is dropped.
\<close>

theorem drain_takes_arrivals_until_empty:
  "map_outcome (set_queue []) (drain E arrivals a)
     = map_outcome (set_queue [])
         (drain E [] (set_queue (s_remote_commands a
            @ absorbed (length (s_remote_commands a)) arrivals) a))
   \<and> (exn_of (drain E arrivals a) = None \<longrightarrow>
        s_remote_commands (state_of (drain E arrivals a))
          = deferred (length (s_remote_commands a)) arrivals)
   \<and> absorbed (length (s_remote_commands a)) arrivals
        @ deferred (length (s_remote_commands a)) arrivals = concat arrivals"
proof -
  have a: "set_queue (s_remote_commands a) a = a"
    by (simp add: set_queue_def)
  have 1: "map_outcome (set_queue []) (drain E arrivals a)
     = map_outcome (set_queue [])
         (drain E [] (set_queue (s_remote_commands a
            @ absorbed (length (s_remote_commands a)) arrivals) a))"
    using drain_sequential [of E arrivals "s_remote_commands a" a] by (simp only: a)
  have 2: "exn_of (drain E arrivals a) = None \<longrightarrow>
        s_remote_commands (state_of (drain E arrivals a))
          = deferred (length (s_remote_commands a)) arrivals"
  proof (cases "drain E arrivals a")
    case (Returned a')
    then show ?thesis by (simp add: drain_leaves_deferred)
  next
    case (Raised e a')
    then show ?thesis by simp
  qed
  from 1 2 absorbed_deferred show ?thesis by blast
qed

definition loading_demo :: app where
  "loading_demo = put (QStr ''load demo'') (init_app [])"

text \<open>
  Witness of C8: \<^verbatim>\<open>load demo\<close> is queued; \<^verbatim>\<open>start\<close> arrives while it is applied
  and is taken by the same drain, \<^verbatim>\<open>cancel\<close> arrives after the queue was found empty
  and stays queued.
\<close>

theorem drain_takes_arrivals_until_empty_witness:
  "exn_of (drain demo_env [[QStr ''start''], [], [QStr ''cancel'']] loading_demo) = None
   \<and> absorbed (length (s_remote_commands loading_demo)) [[QStr ''start''], [], [QStr ''cancel'']]
       = [QStr ''start'']
   \<and> s_remote_commands (state_of (drain demo_env [[QStr ''start''], [], [QStr ''cancel'']] loading_demo))
       = [QStr ''cancel'']
   \<and> trace (state_of (drain demo_env [[QStr ''start''], [], [QStr ''cancel'']] loading_demo))
       = [Construct 0, Call 0 Start]"
proof -
  have e: "exn_of (drain demo_env [[QStr ''start''], [], [QStr ''cancel'']] loading_demo) = None"
    by code_simp
  have d: "deferred (length (s_remote_commands loading_demo)) [[QStr ''start''], [], [QStr ''cancel'']]
      = [QStr ''cancel'']"
    by code_simp
  have a: "absorbed (length (s_remote_commands loading_demo)) [[QStr ''start''], [], [QStr ''cancel'']]
      = [QStr ''start'']"
    by code_simp
  have t: "trace (state_of (drain demo_env [[QStr ''start''], [], [QStr ''cancel'']] loading_demo))
       = [Construct 0, Call 0 Start]"
    by code_simp
  show ?thesis
    using drain_takes_arrivals_until_empty
      [of demo_env "[[QStr ''start''], [], [QStr ''cancel'']]" loading_demo] e d a t
    by simp
qed

text \<open>
  Counterexample to C8 as stated: only \<^verbatim>\<open>load demo\<close> is queued when the drain
  begins, \<^verbatim>\<open>start\<close> is put while \<^verbatim>\<open>load demo\<close> is applied, and the same tick applies
  it: the session is \<open>Running\<close> and has been ticked when the tick returns.
\<close>

theorem drain_snapshot_counterexample:
  "s_remote_commands loading_demo = [QStr ''load demo'']
   \<and> session (state_of (main_loop_tick demo_env [[QStr ''start'']] loading_demo)) = Running
   \<and> trace (state_of (main_loop_tick demo_env [[QStr ''start'']] loading_demo))
       = [Construct 0, Call 0 Start, Call 0 Tick]
   \<and> s_remote_commands (state_of (main_loop_tick demo_env [[QStr ''start'']] loading_demo)) = []"
  by code_simp

end
